theory Spec2Isabelle
  imports Complex_Main
begin

section \<open>JavaScript numbers\<close>

text \<open>
  Every number of \<^verbatim>\<open>main.js\<close> is an IEEE-754 binary64 value. A finite double is
  modelled by the real number it denotes, and every arithmetic operation of the source
  (\<^verbatim>\<open>+\<close>, \<^verbatim>\<open>-\<close>, \<^verbatim>\<open>*\<close>, \<^verbatim>\<open>/\<close>) and every decimal literal is the exact real
  result rounded to the nearest double, ties to the even significand (\<open>fl\<close>):
  53 significant bits, gradual underflow below \<open>2 powi (- 1022)\<close>. Comparisons
  are exact. The exponent range of the model is unbounded above: overflow to
  \<^verbatim>\<open>Infinity\<close> (beyond about \<open>1.8e308\<close>) and \<^verbatim>\<open>NaN\<close> are not represented, and the
  two zeros are identified (the source only compares and multiplies them).
\<close>

fun bit_length :: "nat \<Rightarrow> nat" where
  "bit_length n = (if n = 0 then 0 else Suc (bit_length (n div 2)))"

declare bit_length.simps [simp del]

text \<open>\<open>flog2 x\<close> is the binary exponent of a positive real: \<open>2 powi flog2 x \<le> x < 2 powi (flog2 x + 1)\<close>.\<close>

definition flog2 :: "real \<Rightarrow> int" where
  "flog2 x = (if 1 \<le> x then int (bit_length (nat \<lfloor>x\<rfloor>)) - 1
              else - int (bit_length (nat (\<lceil>1 / x\<rceil> - 1))))"

text \<open>Rounding to the nearest integer, ties to even.\<close>

definition round_even :: "real \<Rightarrow> int" where
  "round_even q = (let f = \<lfloor>q\<rfloor>; r = q - of_int f in
     if r < 1 / 2 then f else if 1 / 2 < r then f + 1 else if even f then f else f + 1)"

text \<open>The spacing of the doubles around \<open>x\<close> (unit in the last place).\<close>

definition ulp :: "real \<Rightarrow> real" where
  "ulp x = 2 powi (max (flog2 \<bar>x\<bar>) (- 1022) - 52)"

definition fl :: "real \<Rightarrow> real" where
  "fl x = (if x = 0 then 0 else of_int (round_even (x / ulp x)) * ulp x)"

definition is_double :: "real \<Rightarrow> bool" where
  "is_double x = (fl x = x)"

definition fadd :: "real \<Rightarrow> real \<Rightarrow> real" where
  "fadd a b = fl (a + b)"

definition fsub :: "real \<Rightarrow> real \<Rightarrow> real" where
  "fsub a b = fl (a - b)"

definition fmul :: "real \<Rightarrow> real \<Rightarrow> real" where
  "fmul a b = fl (a * b)"

definition fdiv :: "real \<Rightarrow> real \<Rightarrow> real" where
  "fdiv a b = fl (a / b)"

section \<open>Globals of the script\<close>

text \<open>
  The file holds two variants of the script, one after the other. The classes
  \<^verbatim>\<open>Plank\<close> and \<^verbatim>\<open>Ball\<close> are the same in both but for the constant
  \<^verbatim>\<open>ACCELERATION\<close>: \<^verbatim>\<open>1.1\<close> in the first (textured) variant, \<^verbatim>\<open>1.01\<close> in the second.
\<close>

datatype variant = Textured | Plain

text \<open>
  The canvas element: its CSS size, read from the DOM. The constants below are computed
  once, when the script is loaded, from the canvas as it is then (\<open>cv0\<close> in the
  functions); \<^verbatim>\<open>detectCollision\<close> reads the canvas again at every call (\<open>cv\<close>).
\<close>

record canvas =
  clientWidth :: real
  clientHeight :: real

definition POINT_SIZE :: "canvas \<Rightarrow> real" where
  "POINT_SIZE cv0 = fmul (clientHeight cv0) (fl (25 / 1000))"

definition PIXELS_PER_SEC :: "canvas \<Rightarrow> real" where
  "PIXELS_PER_SEC cv0 = fmul (clientWidth cv0) (fl (333 / 1000))"

definition ACCELERATION :: "variant \<Rightarrow> real" where
  "ACCELERATION ver = (case ver of Textured \<Rightarrow> fl (11 / 10) | Plain \<Rightarrow> fl (101 / 100))"

definition plankWidth :: "canvas \<Rightarrow> real" where
  "plankWidth cv0 = fmul (clientWidth cv0) (fl (25 / 1000))"

definition plankHeight :: "canvas \<Rightarrow> real" where
  "plankHeight cv0 = fmul (clientHeight cv0) (fl (25 / 100))"

section \<open>The random source\<close>

text \<open>
  \<^verbatim>\<open>Math.random()\<close> is global state: a stream of draws and the index of the next one.
\<close>

record random_source =
  draws :: "nat \<Rightarrow> real"
  drawn :: nat

definition Math_random :: "random_source \<Rightarrow> real \<times> random_source" where
  "Math_random g = (draws g (drawn g), g\<lparr>drawn := Suc (drawn g)\<rparr>)"

section \<open>class Drawable\<close>

text \<open>
  The fields the update loop reads and writes. The WebGL buffer, the primitive type and
  the vertex count only matter to \<^verbatim>\<open>draw\<close>.
\<close>

record drawable =
  translation :: "real \<times> real"
  moveVector :: "real \<times> real"
  color :: "real \<times> real \<times> real \<times> real"

record axis_range =
  range_min :: real
  range_max :: real

record collision_range =
  range_x :: axis_range
  range_y :: axis_range

definition getCollisionRange :: "canvas \<Rightarrow> 'a drawable_scheme \<Rightarrow> collision_range" where
  "getCollisionRange cv0 d =
     (let xmin = fst (translation d);
          xmax = fadd (fst (translation d)) (plankWidth cv0);
          ymin = snd (translation d);
          ymax = fadd (snd (translation d)) (plankHeight cv0)
      in \<lparr>range_x = \<lparr>range_min = xmin, range_max = xmax\<rparr>,
          range_y = \<lparr>range_min = ymin, range_max = ymax\<rparr>\<rparr>)"

definition randomColor :: "random_source \<Rightarrow> (real \<times> real \<times> real \<times> real) \<times> random_source" where
  "randomColor g =
     (let (r, g1) = Math_random g;
          (gr, g2) = Math_random g1;
          (b, g3) = Math_random g2
      in ((r, gr, b, 1), g3))"

definition randomMoveVector :: "random_source \<Rightarrow> (real \<times> real) \<times> random_source" where
  "randomMoveVector g =
     (let (r1, g1) = Math_random g;
          (r2, g2) = Math_random g1
      in ((if fl (5 / 10) < r1 then 1 else - 1, fmul (fsub (fmul r2 2) 1) (fl (5 / 10))), g2))"

section \<open>class Plank\<close>

record key_binding =
  up :: string
  down :: string

text \<open>
  \<^verbatim>\<open>keysPressed\<close> is an object used as a dictionary from \<^verbatim>\<open>event.key\<close> to a boolean;
  a key that was never pressed is absent (\<^verbatim>\<open>undefined\<close>).
\<close>

record plank = drawable +
  keys :: key_binding
  keysPressed :: "string \<rightharpoonup> bool"

definition keydown :: "string \<Rightarrow> plank \<Rightarrow> plank" where
  "keydown k p = p\<lparr>keysPressed := (keysPressed p)(k \<mapsto> True)\<rparr>"

definition keyup :: "string \<Rightarrow> plank \<Rightarrow> plank" where
  "keyup k p = p\<lparr>keysPressed := (keysPressed p)(k \<mapsto> False)\<rparr>"

text \<open>A key is held when its entry is \<^verbatim>\<open>true\<close>: the test \<^verbatim>\<open>this.keysPressed[k] === true\<close>.\<close>

definition held :: "plank \<Rightarrow> string \<Rightarrow> bool" where
  "held p k = (keysPressed p k = Some True)"

definition Plank_moveUpdate :: "canvas \<Rightarrow> real \<Rightarrow> plank \<Rightarrow> plank" where
  "Plank_moveUpdate cv0 deltaTime p =
     (let p1 = (if keysPressed p (up (keys p)) = Some True
                then p\<lparr>translation := (fst (translation p),
                        fadd (snd (translation p)) (fmul (PIXELS_PER_SEC cv0) deltaTime))\<rparr>
                else p);
          p2 = (if keysPressed p1 (down (keys p1)) = Some True
                then p1\<lparr>translation := (fst (translation p1),
                        fsub (snd (translation p1)) (fmul (PIXELS_PER_SEC cv0) deltaTime))\<rparr>
                else p1)
      in p2)"

section \<open>class Ball\<close>

text \<open>
  Objects are held by reference. \<open>collidables\<close> lists the references that
  \<^verbatim>\<open>registerCollisionObject\<close> has pushed, every one an instance of \<^verbatim>\<open>Drawable\<close>;
  the store gives the \<^verbatim>\<open>Drawable\<close> fields of the object behind each such reference
  at the time of a call, so that a paddle moved between two frames is seen where it is.
\<close>

type_synonym ref = nat

type_synonym store = "ref \<Rightarrow> drawable"

record ball = drawable +
  collidables :: "ref list"
  isInsideCollidable :: bool

text \<open>
  The values \<^verbatim>\<open>registerCollisionObject\<close> can be called with: primitives, objects that
  are not drawables, and instances of the four classes of the script, all of which have
  \<^verbatim>\<open>Drawable.prototype\<close> on their prototype chain.
\<close>

datatype js_class = Drawable | DrawableTexture | Plank | Ball

datatype js_value =
    Undefined
  | Null
  | Boolean bool
  | Number real
  | String string
  | OtherObject ref
  | Instance js_class ref

fun instanceof_Drawable :: "js_value \<Rightarrow> bool" where
  "instanceof_Drawable (Instance c r) = True"
| "instanceof_Drawable v = False"

datatype js_error = Error string

datatype completion = Normal | Throw js_error

text \<open>A method call completes normally or throws; either way it leaves a state behind.\<close>

definition registerCollisionObject :: "js_value \<Rightarrow> ball \<Rightarrow> completion \<times> ball" where
  "registerCollisionObject obj b =
     (case obj of
        Instance c r \<Rightarrow> (Normal, b\<lparr>collidables := collidables b @ [r]\<rparr>)
      | _ \<Rightarrow> (Throw (Error ''Object must be of type Drawable''), b))"

definition bounce :: "variant \<Rightarrow> (real \<times> real) option \<Rightarrow> ball \<Rightarrow> ball" where
  "bounce ver modifiers b =
     (case modifiers of
        Some m \<Rightarrow>
          b\<lparr>isInsideCollidable := True,
            moveVector :=
              (fmul (fmul (fst (moveVector b)) (fst m)) (ACCELERATION ver),
               fmul (fmul (snd (moveVector b)) (snd m)) (ACCELERATION ver))\<rparr>
      | None \<Rightarrow> b\<lparr>isInsideCollidable := False\<rparr>)"

text \<open>The condition of the \<^verbatim>\<open>if\<close> inside the loop of \<^verbatim>\<open>detectCollision\<close>.\<close>

definition collides :: "bool \<Rightarrow> real \<Rightarrow> real \<Rightarrow> real \<Rightarrow> collision_range \<Rightarrow> bool" where
  "collides inside x y ballOffset rg =
     (\<not> inside \<and>
      fsub (range_min (range_x rg)) ballOffset \<le> x \<and> x \<le> fadd (range_max (range_x rg)) ballOffset \<and>
      fsub (range_min (range_y rg)) ballOffset \<le> y \<and> y \<le> fadd (range_max (range_y rg)) ballOffset)"

text \<open>The loop over \<^verbatim>\<open>this.collidables\<close>: it returns from the method at the first hit.\<close>

fun collidables_loop ::
  "canvas \<Rightarrow> store \<Rightarrow> bool \<Rightarrow> real \<Rightarrow> real \<Rightarrow> real \<Rightarrow> ref list \<Rightarrow> (real \<times> real) option" where
  "collidables_loop cv0 st inside x y ballOffset [] = None"
| "collidables_loop cv0 st inside x y ballOffset (obj # objs) =
     (let rg = getCollisionRange cv0 (st obj)
      in if collides inside x y ballOffset rg then Some (- 1, 1)
         else collidables_loop cv0 st inside x y ballOffset objs)"

definition detectCollision ::
  "canvas \<Rightarrow> canvas \<Rightarrow> store \<Rightarrow> ball \<Rightarrow> random_source
     \<Rightarrow> (real \<times> real) option \<times> ball \<times> random_source" where
  "detectCollision cv0 cv st b g =
     (let x = fst (translation b);
          y = snd (translation b);
          ballOffset = fdiv (POINT_SIZE cv0) 2
      in case collidables_loop cv0 st (isInsideCollidable b) x y ballOffset (collidables b) of
           Some m \<Rightarrow> (Some m, b, g)
         | None \<Rightarrow>
             if y \<le> 0 \<or> clientHeight cv \<le> y then (Some (1, - 1), b, g)
             else if x \<le> 0 \<or> clientWidth cv \<le> x then
               (let (mv, g1) = randomMoveVector g;
                    (c, g2) = randomColor g1
                in (None,
                    b\<lparr>translation := (fdiv (clientWidth cv) 2, fdiv (clientHeight cv) 2),
                      moveVector := mv,
                      color := c\<rparr>,
                    g2))
             else (None, b, g))"

definition Ball_moveUpdate ::
  "variant \<Rightarrow> canvas \<Rightarrow> canvas \<Rightarrow> store \<Rightarrow> real \<Rightarrow> ball \<Rightarrow> random_source
     \<Rightarrow> ball \<times> random_source" where
  "Ball_moveUpdate ver cv0 cv st deltaTime b g =
     (let (modifiers, b1, g1) = detectCollision cv0 cv st b g;
          b2 = bounce ver modifiers b1;
          b3 = b2\<lparr>translation :=
                 (fadd (fst (translation b2))
                    (fmul (fmul (PIXELS_PER_SEC cv0) (fst (moveVector b2))) deltaTime),
                  snd (translation b2))\<rparr>;
          b4 = b3\<lparr>translation :=
                 (fst (translation b3),
                  fadd (snd (translation b3))
                    (fmul (fmul (PIXELS_PER_SEC cv0) (snd (moveVector b3))) deltaTime))\<rparr>
      in (b4, g1))"

section \<open>The spec's reading of the collision test\<close>

text \<open>
  The specification describes the collision test by four cases in priority order. The
  two definitions below follow its words, to be compared with \<open>detectCollision\<close>:
  the paddle's rectangle is \<open>[tx, tx + plankWidth] \<times> [ty, ty + plankHeight]\<close>, expanded on
  all sides by half the ball's render diameter \<^verbatim>\<open>POINT_SIZE\<close>.
\<close>

definition within_expanded :: "canvas \<Rightarrow> drawable \<Rightarrow> real \<times> real \<Rightarrow> bool" where
  "within_expanded cv0 paddle pos =
     (fsub (fst (translation paddle)) (fdiv (POINT_SIZE cv0) 2) \<le> fst pos \<and>
      fst pos \<le> fadd (fadd (fst (translation paddle)) (plankWidth cv0)) (fdiv (POINT_SIZE cv0) 2) \<and>
      fsub (snd (translation paddle)) (fdiv (POINT_SIZE cv0) 2) \<le> snd pos \<and>
      snd pos \<le> fadd (fadd (snd (translation paddle)) (plankHeight cv0)) (fdiv (POINT_SIZE cv0) 2))"

definition overlaps_paddle :: "canvas \<Rightarrow> store \<Rightarrow> ball \<Rightarrow> bool" where
  "overlaps_paddle cv0 st b = list_ex (\<lambda>obj. within_expanded cv0 (st obj) (translation b)) (collidables b)"

datatype collision_case = PaddleHit | WallContact | SideExit | NoCollision

definition collision_case :: "canvas \<Rightarrow> canvas \<Rightarrow> store \<Rightarrow> ball \<Rightarrow> collision_case" where
  "collision_case cv0 cv st b =
     (if overlaps_paddle cv0 st b \<and> \<not> isInsideCollidable b then PaddleHit
      else if snd (translation b) \<le> 0 \<or> clientHeight cv \<le> snd (translation b) then WallContact
      else if fst (translation b) \<le> 0 \<or> clientWidth cv \<le> fst (translation b) then SideExit
      else NoCollision)"

section \<open>A concrete game\<close>

text \<open>
  A canvas of 1000 by 800 pixels, for which \<^verbatim>\<open>PIXELS_PER_SEC\<close> is 333, \<^verbatim>\<open>POINT_SIZE\<close> 20,
  \<^verbatim>\<open>plankWidth\<close> 25 and \<^verbatim>\<open>plankHeight\<close> 200, and the two paddles where the script
  creates them: at \<open>(0, 0)\<close> and at \<open>(975, 600)\<close>, bound to w/s and o/l.
\<close>

definition game_canvas :: canvas where
  "game_canvas = \<lparr>clientWidth = 1000, clientHeight = 800\<rparr>"

definition left_plank :: plank where
  "left_plank = \<lparr>translation = (0, 0), moveVector = (0, 1), color = (0, 0, 0, 0),
     keys = \<lparr>up = ''w'', down = ''s''\<rparr>, keysPressed = Map.empty\<rparr>"

definition right_plank :: plank where
  "right_plank = \<lparr>translation = (975, 600), moveVector = (0, 1), color = (0, 0, 0, 0),
     keys = \<lparr>up = ''o'', down = ''l''\<rparr>, keysPressed = Map.empty\<rparr>"

text \<open>The store of that game: reference 0 is the left paddle, every other one the right paddle.\<close>

definition game_store :: store where
  "game_store obj = (if obj = 0 then drawable.truncate left_plank else drawable.truncate right_plank)"

text \<open>A random source whose every draw is \<open>3/4\<close>.\<close>

definition game_random :: random_source where
  "game_random = \<lparr>draws = (\<lambda>n. 3 / 4), drawn = 0\<rparr>"

text \<open>A ball of that game, as \<^verbatim>\<open>addNewBall\<close> registers its paddles, at a given place.\<close>

definition game_ball :: "real \<times> real \<Rightarrow> real \<times> real \<Rightarrow> bool \<Rightarrow> ball" where
  "game_ball pos v inside = \<lparr>translation = pos, moveVector = v, color = (1, 0, 0, 1),
     collidables = [0, 1], isInsideCollidable = inside\<rparr>"

text \<open>
  The left paddle one frame of \<open>1/64\<close> s after \<^verbatim>\<open>w\<close> went down at \<open>y = 0\<close>
  (\<open>333 / 64 = 5.203125\<close>), with \<^verbatim>\<open>s\<close> now pressed as well.
\<close>

definition both_keys_plank :: plank where
  "both_keys_plank = keydown ''s'' (Plank_moveUpdate game_canvas (1 / 64) (keydown ''w'' left_plank))"

text \<open>
  The left paddle at the same place (\<open>y = 333 / 64\<close>) with only \<^verbatim>\<open>w\<close> held, and the
  right paddle where the script creates it (\<open>y = 600\<close>) with only \<^verbatim>\<open>o\<close> held.
\<close>

definition up_key_plank :: plank where
  "up_key_plank = Plank_moveUpdate game_canvas (1 / 64) (keydown ''w'' left_plank)"

definition still_plank :: plank where
  "still_plank = keydown ''o'' right_plank"

text \<open>
  A ball on the top edge of the left paddle's expanded rectangle (\<open>y = 200 + 10\<close>), moving
  down and left into it, and where two frames of \<open>1/64\<close> s take it.
\<close>

definition edge_ball :: ball where
  "edge_ball = game_ball (10, 210) (- 1, - 1 / 2) False"

definition edge_ball_1 :: ball where
  "edge_ball_1 = fst (Ball_moveUpdate Textured game_canvas game_canvas game_store (1 / 64) edge_ball game_random)"

definition edge_ball_2 :: ball where
  "edge_ball_2 = fst (Ball_moveUpdate Textured game_canvas game_canvas game_store (1 / 64) edge_ball_1 game_random)"

text \<open>The scenario of the specification: a ball on the left edge of the field, half way up, moving left.\<close>

definition exit_ball :: ball where
  "exit_ball = game_ball (0, 400) (- 1, 0) False"

text \<open>A ball inside the left paddle's rectangle whose flag is already set.\<close>

definition flagged_ball :: ball where
  "flagged_ball = game_ball (20, 100) (1, 0) True"

text \<open>A ball on the wall \<open>y = 0\<close>, just right of the left paddle's expanded rectangle, moving left.\<close>

definition wall_ball :: ball where
  "wall_ball = game_ball (40, 0) (- 1, - 1 / 2) False"

definition wall_ball_1 :: ball where
  "wall_ball_1 = fst (Ball_moveUpdate Textured game_canvas game_canvas game_store (1 / 64) wall_ball game_random)"

text \<open>A ball inside the left paddle's expanded rectangle and on the wall \<open>y = 0\<close> at once.\<close>

definition tie_ball :: "bool \<Rightarrow> ball" where
  "tie_ball inside = game_ball (10, 0) (- 1, - 1 / 2) inside"

text \<open>A ball inside the left paddle's expanded rectangle, one pixel above the wall \<open>y = 0\<close>, moving down.\<close>

definition corner_ball :: ball where
  "corner_ball = game_ball (10, 1) (- 1, - 1 / 2) False"

definition corner_ball_1 :: ball where
  "corner_ball_1 = fst (Ball_moveUpdate Textured game_canvas game_canvas game_store (1 / 64) corner_ball game_random)"

definition corner_ball_2 :: ball where
  "corner_ball_2 = fst (Ball_moveUpdate Textured game_canvas game_canvas game_store (1 / 64) corner_ball_1 game_random)"

definition free_ball :: ball where
  "free_ball = game_ball (500, 400) (1, 1 / 4) False"

text \<open>A ball on the left edge of the field, in front of the left paddle.\<close>

definition saved_ball :: ball where
  "saved_ball = game_ball (0, 100) (- 1, 0) False"

text \<open>A ball on the left edge of the field, half way up, whose flag is set.\<close>

definition flagged_exit_ball :: ball where
  "flagged_exit_ball = game_ball (0, 400) (- 1, 0) True"

definition edge_ball_3 :: ball where
  "edge_ball_3 = fst (Ball_moveUpdate Textured game_canvas game_canvas game_store (1 / 64) edge_ball_2 game_random)"

text \<open>A random source whose every draw is \<open>1/4\<close>.\<close>

definition low_random :: random_source where
  "low_random = \<lparr>draws = (\<lambda>n. 1 / 4), drawn = 0\<rparr>"

section \<open>Rounding to a double\<close>

lemma bit_length_bounds:
  "0 < n \<Longrightarrow> 2 ^ (bit_length n - 1) \<le> n \<and> n < 2 ^ bit_length n"
proof (induction n rule: bit_length.induct)
  case (1 n)
  show ?case
  proof (cases "n div 2 = 0")
    case True
    with "1.prems" have "n = 1" by (simp add: div_eq_0_iff)
    then show ?thesis by (simp add: bit_length.simps)
  next
    case False
    then have pos: "0 < n div 2" by simp
    from "1.IH" [OF _ pos] "1.prems"
    have ih: "2 ^ (bit_length (n div 2) - 1) \<le> n div 2" "n div 2 < 2 ^ bit_length (n div 2)"
      by simp_all
    have bl: "bit_length n = Suc (bit_length (n div 2))"
      using "1.prems" by (subst bit_length.simps) simp
    have bpos: "0 < bit_length (n div 2)"
      using pos by (subst bit_length.simps) simp
    then obtain k where k: "bit_length (n div 2) = Suc k" by (cases "bit_length (n div 2)") auto
    from ih k have "2 * 2 ^ k \<le> n" by simp
    moreover from ih(2) have "n < 2 * 2 ^ bit_length (n div 2)" by linarith
    ultimately show ?thesis by (simp add: bl k)
  qed
qed

lemma bit_length_pos: "0 < n \<Longrightarrow> 0 < bit_length n"
  by (subst bit_length.simps) simp

lemma flog2_bounds:
  assumes "0 < x"
  shows "2 powi flog2 x \<le> x" and "x < 2 powi (flog2 x + 1)"
proof -
  have "2 powi flog2 x \<le> x \<and> x < 2 powi (flog2 x + 1)"
  proof (cases "1 \<le> x")
    case True
    define n where "n = nat \<lfloor>x\<rfloor>"
    from True have n: "0 < n" "real n \<le> x" "x < real n + 1"
      unfolding n_def by (simp, linarith, linarith)
    from bit_length_bounds [OF n(1)]
    have b: "2 ^ (bit_length n - 1) \<le> n" "n < 2 ^ bit_length n" by simp_all
    from bit_length_pos [OF n(1)] obtain k where k: "bit_length n = Suc k"
      by (cases "bit_length n") auto
    have e: "flog2 x = int k" using True by (simp add: flog2_def n_def [symmetric] k)
    from b k have "(2::nat) ^ k \<le> n" by simp
    then have "(2::real) ^ k \<le> real n" by simp
    then have lo: "(2::real) ^ k \<le> x" using n(2) by linarith
    from b(2) k have "n + 1 \<le> (2::nat) ^ Suc k" by simp
    then have "real (n + 1) \<le> (2::real) ^ Suc k"
      by (metis of_nat_le_iff of_nat_numeral of_nat_power)
    then have hi: "x < (2::real) ^ Suc k" using n(3) by simp
    have "int k + 1 = int (Suc k)" by simp
    then have "(2::real) powi (int k + 1) = 2 ^ Suc k" by (simp only: power_int_of_nat)
    with lo hi show ?thesis by (simp add: e)
  next
    case False
    with assms have x: "0 < x" "x < 1" by simp_all
    define y where "y = 1 / x"
    have y: "1 < y" using x by (simp add: y_def)
    define m where "m = nat (\<lceil>y\<rceil> - 1)"
    have "2 \<le> \<lceil>y\<rceil>" using y by linarith
    then have m: "0 < m" "real m < y" "y \<le> real m + 1"
      unfolding m_def by (simp, linarith, linarith)
    from bit_length_bounds [OF m(1)]
    have b: "2 ^ (bit_length m - 1) \<le> m" "m < 2 ^ bit_length m" by simp_all
    from bit_length_pos [OF m(1)] obtain k where k: "bit_length m = Suc k"
      by (cases "bit_length m") auto
    have e: "flog2 x = - int (Suc k)"
      using False by (simp add: flog2_def y_def [symmetric] m_def [symmetric] k)
    from b k have "(2::nat) ^ k \<le> m" by simp
    then have "(2::real) ^ k \<le> real m" by simp
    then have "(2::real) ^ k < y" using m(2) by linarith
    then have "(2::real) ^ k * x < 1" using x by (simp add: y_def field_simps)
    then have hi: "x < 1 / 2 ^ k" by (simp add: field_simps)
    from b(2) k have "m + 1 \<le> (2::nat) ^ Suc k" by simp
    then have "real (m + 1) \<le> (2::real) ^ Suc k"
      by (metis of_nat_le_iff of_nat_numeral of_nat_power)
    then have "y \<le> (2::real) ^ Suc k" using m(3) by simp
    then have "1 \<le> (2::real) ^ Suc k * x" using x by (simp add: y_def field_simps)
    then have lo: "1 / 2 ^ Suc k \<le> x" by (simp add: field_simps)
    have p1: "(2::real) powi (- int (Suc k)) = 1 / 2 ^ Suc k"
      by (simp only: power_int_minus_divide power_int_of_nat)
    have "- int (Suc k) + 1 = - int k" by simp
    then have p2: "(2::real) powi (- int (Suc k) + 1) = 1 / 2 ^ k"
      by (simp only: power_int_minus_divide power_int_of_nat)
    from lo hi show ?thesis unfolding e p1 p2 by simp
  qed
  then show "2 powi flog2 x \<le> x" and "x < 2 powi (flog2 x + 1)" by simp_all
qed


lemma flog2_mono: "0 < x \<Longrightarrow> x \<le> y \<Longrightarrow> flog2 x \<le> flog2 y"
proof -
  assume x: "0 < x" and xy: "x \<le> y"
  then have y: "0 < y" by simp
  have "(2::real) powi flog2 x < 2 powi (flog2 y + 1)"
    using flog2_bounds(1) [OF x] flog2_bounds(2) [OF y] xy by linarith
  moreover have "(2::real) powi (flog2 y + 1) \<le> 2 powi flog2 x" if "flog2 y + 1 \<le> flog2 x"
    using that by (intro power_int_increasing) simp_all
  ultimately show ?thesis by force
qed

lemma round_even_of_int [simp]: "round_even (of_int n) = n"
  by (simp add: round_even_def)

lemma round_even_lower: "\<lfloor>q\<rfloor> \<le> round_even q"
  by (simp add: round_even_def Let_def)

lemma round_even_mono: "p \<le> q \<Longrightarrow> round_even p \<le> round_even q"
proof -
  assume pq: "p \<le> q"
  then have f: "\<lfloor>p\<rfloor> \<le> \<lfloor>q\<rfloor>" by (rule floor_mono)
  show ?thesis
  proof (cases "\<lfloor>p\<rfloor> = \<lfloor>q\<rfloor>")
    case True
    with pq show ?thesis by (auto simp: round_even_def Let_def)
  next
    case False
    with f have "\<lfloor>p\<rfloor> + 1 \<le> \<lfloor>q\<rfloor>" by simp
    moreover have "round_even p \<le> \<lfloor>p\<rfloor> + 1" by (simp add: round_even_def Let_def)
    ultimately show ?thesis using round_even_lower [of q] by linarith
  qed
qed

lemma round_even_minus: "round_even (- q) = - round_even q"
proof (cases "q = of_int \<lfloor>q\<rfloor>")
  case True
  then obtain n where "q = of_int n" ..
  then have "- q = of_int (- n)" by simp
  then show ?thesis using \<open>q = of_int n\<close> by (metis round_even_of_int)
next
  case False
  then have c: "\<lceil>q\<rceil> = \<lfloor>q\<rfloor> + 1" by (simp add: ceiling_altdef)
  have fm: "\<lfloor>- q\<rfloor> = - \<lfloor>q\<rfloor> - 1" using c by (simp add: ceiling_def)
  show ?thesis
    unfolding round_even_def Let_def fm by auto
qed


lemma ulp_pos [simp]: "0 < ulp x"
  by (simp add: ulp_def)

lemma ulp_nonneg [simp]: "0 \<le> ulp x"
  by (simp add: ulp_def)

lemma ulp_minus [simp]: "ulp (- x) = ulp x"
  by (simp add: ulp_def)

lemma fl_minus: "fl (- x) = - fl x"
  by (simp add: fl_def round_even_minus)

lemma fl_0 [simp]: "fl 0 = 0"
  by (simp add: fl_def)

lemma fl_nonneg: "0 \<le> x \<Longrightarrow> 0 \<le> fl x"
proof -
  assume "0 \<le> x"
  then have "0 \<le> x / ulp x" by simp
  then have "round_even 0 \<le> round_even (x / ulp x)" by (rule round_even_mono)
  then have "0 \<le> round_even (x / ulp x)" by (simp add: round_even_def)
  then show ?thesis by (simp add: fl_def)
qed

lemma fl_upper_binade:
  assumes "0 < x"
  shows "fl x \<le> 2 powi (max (flog2 x) (- 1022) + 1)"
proof -
  define e where "e = max (flog2 x) (- 1022)"
  have u: "ulp x = 2 powi (e - 52)" using assms by (simp add: ulp_def e_def)
  have "x < 2 powi (flog2 x + 1)" by (rule flog2_bounds(2) [OF assms])
  also have "\<dots> \<le> 2 powi (e + 1)"
    by (intro power_int_increasing) (simp_all add: e_def)
  finally have "x < 2 powi (e + 1)" .
  moreover have "(2::real) powi (e + 1) = 2 ^ 53 * 2 powi (e - 52)"
    by (simp add: power_int_diff power_int_add)
  ultimately have "x / ulp x \<le> of_int (2 ^ 53)"
    by (simp add: u field_simps)
  then have "round_even (x / ulp x) \<le> round_even (of_int (2 ^ 53))" by (rule round_even_mono)
  then have "round_even (x / ulp x) \<le> 2 ^ 53" by (simp only: round_even_of_int)
  then have "real_of_int (round_even (x / ulp x)) \<le> 2 ^ 53"
    by (metis of_int_le_iff of_int_numeral of_int_power)
  then have "fl x \<le> 2 ^ 53 * ulp x" using assms by (simp add: fl_def)
  also have "\<dots> = 2 powi (e + 1)"
    by (simp add: u power_int_diff power_int_add)
  finally show ?thesis by (simp add: e_def)
qed

lemma fl_lower_binade:
  assumes "0 < x" and "- 1022 \<le> flog2 x"
  shows "2 powi flog2 x \<le> fl x"
proof -
  define e where "e = flog2 x"
  have u: "ulp x = 2 powi (e - 52)" using assms by (simp add: ulp_def e_def max_def)
  have "2 powi e \<le> x" unfolding e_def by (rule flog2_bounds(1) [OF assms(1)])
  moreover have "(2::real) powi e = 2 ^ 52 * 2 powi (e - 52)"
    by (simp add: power_int_diff)
  ultimately have "of_int (2 ^ 52) \<le> x / ulp x"
    by (simp add: u field_simps)
  then have "round_even (of_int (2 ^ 52)) \<le> round_even (x / ulp x)" by (rule round_even_mono)
  then have "2 ^ 52 \<le> round_even (x / ulp x)" by (simp only: round_even_of_int)
  then have "2 ^ 52 \<le> real_of_int (round_even (x / ulp x))"
    by (metis of_int_le_iff of_int_numeral of_int_power)
  then have "2 ^ 52 * ulp x \<le> fl x" using assms by (simp add: fl_def)
  moreover have "2 ^ 52 * ulp x = 2 powi e"
    by (simp add: u power_int_diff)
  ultimately show ?thesis by (simp add: e_def)
qed

lemma fl_mono_pos:
  assumes "0 < x" and "x \<le> y"
  shows "fl x \<le> fl y"
proof -
  from assms have y: "0 < y" by simp
  define ex where "ex = max (flog2 x) (- 1022)"
  define ey where "ey = max (flog2 y) (- 1022)"
  have le: "ex \<le> ey"
    using flog2_mono [OF assms] by (simp add: ex_def ey_def)
  show ?thesis
  proof (cases "ex = ey")
    case True
    then have u: "ulp x = ulp y"
      using assms y by (simp add: ulp_def ex_def ey_def)
    have "x / ulp y \<le> y / ulp y" using assms by (simp add: divide_right_mono)
    then have "round_even (x / ulp y) \<le> round_even (y / ulp y)" by (rule round_even_mono)
    then have "real_of_int (round_even (x / ulp y)) * ulp y \<le> real_of_int (round_even (y / ulp y)) * ulp y"
      by (simp add: mult_right_mono)
    then show ?thesis using assms y by (simp add: fl_def u)
  next
    case False
    with le have lt: "ex < ey" by simp
    then have ey: "ey = flog2 y" "- 1022 \<le> flog2 y"
      by (simp_all add: ex_def ey_def max_def split: if_splits)
    have "fl x \<le> 2 powi (ex + 1)"
      unfolding ex_def by (rule fl_upper_binade [OF assms(1)])
    also have "\<dots> \<le> 2 powi ey"
      using lt by (intro power_int_increasing) simp_all
    also have "\<dots> \<le> fl y"
      unfolding ey(1) by (rule fl_lower_binade [OF y ey(2)])
    finally show ?thesis .
  qed
qed

lemma fl_mono: "x \<le> y \<Longrightarrow> fl x \<le> fl y"
proof -
  assume xy: "x \<le> y"
  consider "0 < x" | "x \<le> 0" "0 \<le> y" | "y < 0" by linarith
  then show ?thesis
  proof cases
    case 1
    then show ?thesis using xy by (rule fl_mono_pos)
  next
    case 2
    have "0 \<le> fl (- x)" using 2(1) by (intro fl_nonneg) simp
    then have "fl x \<le> 0" by (simp add: fl_minus)
    also have "0 \<le> fl y" using 2(2) by (rule fl_nonneg)
    finally show ?thesis .
  next
    case 3
    then have "0 < - y" "- y \<le> - x" using xy by simp_all
    then have "fl (- y) \<le> fl (- x)" by (rule fl_mono_pos)
    then show ?thesis by (simp add: fl_minus)
  qed
qed

text \<open>The result of a rounding is a double: rounding it again changes nothing.\<close>

lemma flog2_le_of_less:
  assumes "0 < z" and "z < 2 powi (k + 1)"
  shows "flog2 z \<le> k"
proof (rule ccontr)
  assume "\<not> flog2 z \<le> k"
  then have "k + 1 \<le> flog2 z" by simp
  then have "(2::real) powi (k + 1) \<le> 2 powi flog2 z"
    by (intro power_int_increasing) simp_all
  also have "\<dots> \<le> z" by (rule flog2_bounds(1) [OF assms(1)])
  finally show False using assms(2) by simp
qed

lemma fl_of_int_mult_ulp:
  assumes "z = of_int k * ulp z"
  shows "fl z = z"
proof (cases "z = 0")
  case True
  then show ?thesis by simp
next
  case False
  have "z / ulp z = of_int k" using assms ulp_pos [of z]
    by (metis less_irrefl nonzero_mult_div_cancel_right)
  then have "round_even (z / ulp z) = k" by simp
  then show ?thesis using False assms by (simp add: fl_def)
qed

lemma fl_idem_pos:
  assumes "0 < x"
  shows "fl (fl x) = fl x"
proof -
  define e where "e = max (flog2 x) (- 1022)"
  define n where "n = round_even (x / ulp x)"
  define z where "z = fl x"
  have u: "ulp x = 2 powi (e - 52)" using assms by (simp add: ulp_def e_def)
  have z: "z = of_int n * 2 powi (e - 52)" using assms by (simp add: z_def fl_def n_def u)
  have z0: "0 \<le> z" unfolding z_def using assms by (intro fl_nonneg) simp
  have zle: "z \<le> 2 powi (e + 1)" unfolding z_def e_def by (rule fl_upper_binade [OF assms])
  have e_lo: "- 1022 \<le> e" by (simp add: e_def)
  show ?thesis
  proof (cases "z = 0")
    case True
    then show ?thesis by (simp add: z_def)
  next
    case False
    with z0 have zpos: "0 < z" by simp
    define ez where "ez = max (flog2 z) (- 1022)"
    have uz: "ulp z = 2 powi (ez - 52)" using zpos by (simp add: ulp_def ez_def)
    show ?thesis
    proof (cases "ez \<le> e")
      case True
      then obtain j where j: "e - ez = int j" using nonneg_int_cases [of "e - ez"] by auto
      have "(2::real) powi (e - 52) = 2 powi (ez - 52) * 2 powi (e - ez)"
        by (simp flip: power_int_add)
      also have "\<dots> = 2 powi (ez - 52) * 2 ^ j" by (simp add: j)
      finally have "of_int n * (2::real) powi (e - 52) = of_int (n * 2 ^ j) * 2 powi (ez - 52)"
        by simp
      with z have "z = of_int (n * 2 ^ j) * 2 powi (ez - 52)" by (rule trans)
      then have "z = of_int (n * 2 ^ j) * ulp z" unfolding uz .
      then have "fl z = z" by (rule fl_of_int_mult_ulp)
      then show ?thesis by (simp add: z_def)
    next
      case False
      then have lt: "e < ez" by simp
      with e_lo have ez_eq: "ez = flog2 z" by (simp add: ez_def max_def split: if_splits)
      have "\<not> z < 2 powi (e + 1)"
      proof
        assume "z < 2 powi (e + 1)"
        with zpos have "flog2 z \<le> e" by (rule flog2_le_of_less)
        with lt ez_eq show False by simp
      qed
      with zle have zeq: "z = 2 powi (e + 1)" by simp
      have "z < 2 powi (e + 1 + 1)" unfolding zeq by (intro power_int_strict_increasing) simp_all
      with zpos have "flog2 z \<le> e + 1" by (rule flog2_le_of_less)
      with lt ez_eq have ez1: "ez = e + 1" by simp
      have "(2::real) powi (e + 1) = 2 powi (e + 1 - 52) * 2 powi 52"
        using power_int_add [of "2::real" "e + 1 - 52" 52] by (simp add: add.commute)
      then have "(2::real) powi (e + 1) = of_int (2 ^ 52) * 2 powi (ez - 52)"
        by (simp add: ez1)
      with zeq have "z = of_int (2 ^ 52) * 2 powi (ez - 52)" by (rule trans)
      then have "z = of_int (2 ^ 52) * ulp z" unfolding uz .
      then have "fl z = z" by (rule fl_of_int_mult_ulp)
      then show ?thesis by (simp add: z_def)
    qed
  qed
qed

lemma fl_idem [simp]: "fl (fl x) = fl x"
proof -
  consider "0 < x" | "x = 0" | "0 < - x" by linarith
  then show ?thesis
  proof cases
    case 1
    then show ?thesis by (rule fl_idem_pos)
  next
    case 2
    then show ?thesis by simp
  next
    case 3
    then have "fl (fl (- x)) = fl (- x)" by (rule fl_idem_pos)
    then show ?thesis by (simp add: fl_minus)
  qed
qed

lemma is_double_fl [simp]: "is_double (fl x)"
  by (simp add: is_double_def)

lemma fl_abs: "fl \<bar>x\<bar> = \<bar>fl x\<bar>"
proof (cases "0 \<le> x")
  case True
  then show ?thesis using fl_nonneg [of x] by simp
next
  case False
  then have "0 \<le> fl (- x)" by (intro fl_nonneg) simp
  then show ?thesis using False by (simp add: fl_minus)
qed

text \<open>A double is a fixed point of the rounding; whatever is between two doubles rounds between them.\<close>

lemma fl_le_double: "x \<le> d \<Longrightarrow> is_double d \<Longrightarrow> fl x \<le> d"
  using fl_mono [of x d] by (simp add: is_double_def)

lemma fl_ge_double: "d \<le> x \<Longrightarrow> is_double d \<Longrightarrow> d \<le> fl x"
  using fl_mono [of d x] by (simp add: is_double_def)

lemma is_double_0 [simp]: "is_double 0"
  by (simp add: is_double_def)

lemma is_double_minus [simp]: "is_double (- x) = is_double x"
  by (simp add: is_double_def fl_minus)

lemma fl_sgn_scaled:
  assumes "is_double v" and "1 \<le> a"
  shows "sgn (fl (v * a)) = sgn v"
proof -
  consider "0 < v" | "v = 0" | "v < 0" by linarith
  then show ?thesis
  proof cases
    case 1
    then have "v \<le> v * a" using assms(2) by simp
    then have "v \<le> fl (v * a)" using assms(1) by (rule fl_ge_double)
    with 1 show ?thesis by simp
  next
    case 2
    then show ?thesis by simp
  next
    case 3
    then have "v * a \<le> v" using assms(2) by simp
    then have "fl (v * a) \<le> v" using assms(1) by (rule fl_le_double)
    with 3 show ?thesis by simp
  qed
qed

text \<open>Evaluating the rounding on numerals.\<close>

lemma bit_length_eval:
  "bit_length 0 = 0"
  "bit_length 1 = 1"
  "bit_length (Suc 0) = 1"
  "bit_length (numeral k) = Suc (bit_length (numeral k div 2))"
  by (subst bit_length.simps, simp)+

lemmas fl_eval = fl_def ulp_def flog2_def bit_length_eval round_even_def Let_def power_int_minus

lemmas fop_defs = fadd_def fsub_def fmul_def fdiv_def

lemma fl_half: "fl (5 / 10) = 1 / 2" "fl (1 / 2) = 1 / 2"
  by (simp_all add: fl_eval)

lemma ACCELERATION_value:
  "ACCELERATION Textured = 2476979795053773 / 2251799813685248"
  "ACCELERATION Plain = 4548635623644201 / 4503599627370496"
  by (simp_all add: ACCELERATION_def fl_eval)

lemma ACCELERATION_ge_1: "1 \<le> ACCELERATION ver"
  by (cases ver) (simp_all add: ACCELERATION_value)

lemma game_canvas_size: "clientWidth game_canvas = 1000" "clientHeight game_canvas = 800"
  by (simp_all add: game_canvas_def)

lemma game_constants:
  "PIXELS_PER_SEC game_canvas = 333"
  "POINT_SIZE game_canvas = 20"
  "plankWidth game_canvas = 25"
  "plankHeight game_canvas = 200"
  by (simp_all add: PIXELS_PER_SEC_def POINT_SIZE_def plankWidth_def plankHeight_def
      game_canvas_def fmul_def fl_eval)

text \<open>Multiplying by the modifiers \<open>1\<close> and \<open>- 1\<close> is exact.\<close>

lemma fmul_one: "is_double v \<Longrightarrow> fmul v 1 = v"
  by (simp add: fmul_def is_double_def)

lemma fmul_minus_one: "is_double v \<Longrightarrow> fmul v (- 1) = - v"
  by (simp add: fmul_def is_double_def fl_minus)

lemma fmul_minus_left: "fmul (- v) a = - fmul v a"
  by (simp add: fmul_def fl_minus)


section \<open>Paddle movement\<close>

lemma Plank_moveUpdate_y:
  "snd (translation (Plank_moveUpdate cv0 deltaTime p)) =
     (if held p (down (keys p))
      then fsub (if held p (up (keys p))
                 then fadd (snd (translation p)) (fmul (PIXELS_PER_SEC cv0) deltaTime)
                 else snd (translation p))
             (fmul (PIXELS_PER_SEC cv0) deltaTime)
      else if held p (up (keys p))
           then fadd (snd (translation p)) (fmul (PIXELS_PER_SEC cv0) deltaTime)
           else snd (translation p))"
  by (simp add: Plank_moveUpdate_def held_def Let_def)

lemma PIXELS_PER_SEC_step_nonneg:
  "0 \<le> clientWidth cv0 \<Longrightarrow> 0 \<le> deltaTime \<Longrightarrow> 0 \<le> fmul (PIXELS_PER_SEC cv0) deltaTime"
proof -
  assume w: "0 \<le> clientWidth cv0" and t: "0 \<le> deltaTime"
  have "0 \<le> fl (333 / 1000)" by (rule fl_nonneg) simp
  with w have "0 \<le> clientWidth cv0 * fl (333 / 1000)" by simp
  then have "0 \<le> PIXELS_PER_SEC cv0" unfolding PIXELS_PER_SEC_def fmul_def by (rule fl_nonneg)
  with t have "0 \<le> PIXELS_PER_SEC cv0 * deltaTime" by simp
  then show ?thesis unfolding fmul_def by (rule fl_nonneg)
qed

text \<open>
  C6, as the claim states it, fails: the update adds the double \<^verbatim>\<open>PIXELS_PER_SEC * deltaTime\<close>
  in double precision, and the sum is rounded. The left paddle at \<open>y = 333/64\<close> with only
  its up key held, after a frame of \<^verbatim>\<open>1/60\<close> s, has moved by \<open>2 powi (- 50)\<close> more than
  \<^verbatim>\<open>PIXELS_PER_SEC * deltaTime\<close>, whether the difference is taken exactly or in double
  precision. The right paddle at \<open>y = 600\<close> with only its up key held, after a frame of
  \<open>2 powi (- 70)\<close> s, has not moved at all, although the elapsed time is positive.
\<close>

theorem up_key_change_not_exact:
  "held up_key_plank (up (keys up_key_plank)) \<and>
   \<not> held up_key_plank (down (keys up_key_plank)) \<and>
   snd (translation up_key_plank) = 333 / 64 \<and>
   fmul (PIXELS_PER_SEC game_canvas) (fl (1 / 60)) = 6248744482976563 / 1125899906842624 \<and>
   snd (translation (Plank_moveUpdate game_canvas (fl (1 / 60)) up_key_plank))
     = 3026735608941773 / 281474976710656 \<and>
   snd (translation (Plank_moveUpdate game_canvas (fl (1 / 60)) up_key_plank))
       - snd (translation up_key_plank)
     \<noteq> fmul (PIXELS_PER_SEC game_canvas) (fl (1 / 60)) \<and>
   fsub (snd (translation (Plank_moveUpdate game_canvas (fl (1 / 60)) up_key_plank)))
       (snd (translation up_key_plank))
     \<noteq> fmul (PIXELS_PER_SEC game_canvas) (fl (1 / 60)) \<and>
   held still_plank (up (keys still_plank)) \<and>
   \<not> held still_plank (down (keys still_plank)) \<and>
   0 < fmul (PIXELS_PER_SEC game_canvas) (1 / 2 ^ 70) \<and>
   snd (translation still_plank) = 600 \<and>
   snd (translation (Plank_moveUpdate game_canvas (1 / 2 ^ 70) still_plank)) = 600"
proof -
  have u: "held up_key_plank (up (keys up_key_plank))"
      "\<not> held up_key_plank (down (keys up_key_plank))"
      "snd (translation up_key_plank) = 333 / 64"
    by (simp_all add: up_key_plank_def Plank_moveUpdate_def held_def keydown_def left_plank_def
        game_constants fop_defs fl_eval)
  have d: "fmul (PIXELS_PER_SEC game_canvas) (fl (1 / 60)) = 6248744482976563 / 1125899906842624"
    by (simp add: game_constants fop_defs fl_eval)
  have m: "snd (translation (Plank_moveUpdate game_canvas (fl (1 / 60)) up_key_plank))
      = 3026735608941773 / 281474976710656"
    using u(1,2) unfolding Plank_moveUpdate_y u(3) d by (simp add: fop_defs fl_eval)
  have n: "(3026735608941773 / 281474976710656 :: real) - 333 / 64
        \<noteq> 6248744482976563 / 1125899906842624"
      "fsub (3026735608941773 / 281474976710656) (333 / 64)
        \<noteq> 6248744482976563 / 1125899906842624"
    by (simp_all add: fop_defs fl_eval)
  have s: "held still_plank (up (keys still_plank))"
      "\<not> held still_plank (down (keys still_plank))"
      "snd (translation still_plank) = 600"
    by (simp_all add: still_plank_def held_def keydown_def right_plank_def)
  have e: "fmul (PIXELS_PER_SEC game_canvas) (1 / 2 ^ 70) = 333 / 2 ^ 70"
    by (simp add: game_constants fop_defs fl_eval)
  have t: "snd (translation (Plank_moveUpdate game_canvas (1 / 2 ^ 70) still_plank)) = 600"
    using s(1,2) unfolding Plank_moveUpdate_y s(3) e by (simp add: fop_defs fl_eval)
  have pos: "0 < fmul (PIXELS_PER_SEC game_canvas) (1 / 2 ^ 70)"
    unfolding e by simp
  have c: "snd (translation (Plank_moveUpdate game_canvas (fl (1 / 60)) up_key_plank))
        - snd (translation up_key_plank)
      \<noteq> fmul (PIXELS_PER_SEC game_canvas) (fl (1 / 60))"
    "fsub (snd (translation (Plank_moveUpdate game_canvas (fl (1 / 60)) up_key_plank)))
        (snd (translation up_key_plank))
      \<noteq> fmul (PIXELS_PER_SEC game_canvas) (fl (1 / 60))"
    unfolding m u(3) d by (rule n)+
  from u d m c s pos t show ?thesis by blast
qed

text \<open>
  C6, amended. One frame of a paddle applies one double-precision operation per held
  bound key: with \<open>d\<close> the double \<^verbatim>\<open>PIXELS_PER_SEC * deltaTime\<close>, the Y translation
  becomes \<open>y + d\<close> rounded to a double when only the up key is held, \<open>y - d\<close> rounded when
  only the down key is held, \<open>(y + d) - d\<close> (each operation rounded) when both are, and
  the paddle is unchanged when neither is held; the X translation never changes. The
  change is exactly \<open>d\<close> whenever \<open>y + d\<close> (or \<open>y - d\<close>) is itself a double. For
  \<open>deltaTime \<ge> 0\<close> on a canvas of non-negative width, up never lowers Y and down never
  raises it. No bound is applied to the result.
\<close>

theorem Plank_moveUpdate_per_key:
  fixes p :: plank
  assumes "d = fmul (PIXELS_PER_SEC cv0) deltaTime"
      and "y = snd (translation p)"
      and "p' = Plank_moveUpdate cv0 deltaTime p"
  shows "fst (translation p') = fst (translation p) \<and>
    (held p (up (keys p)) \<and> \<not> held p (down (keys p)) \<longrightarrow> snd (translation p') = fadd y d) \<and>
    (\<not> held p (up (keys p)) \<and> held p (down (keys p)) \<longrightarrow> snd (translation p') = fsub y d) \<and>
    (held p (up (keys p)) \<and> held p (down (keys p)) \<longrightarrow> snd (translation p') = fsub (fadd y d) d) \<and>
    (\<not> held p (up (keys p)) \<and> \<not> held p (down (keys p)) \<longrightarrow> p' = p) \<and>
    (0 \<le> clientWidth cv0 \<and> 0 \<le> deltaTime \<and> is_double y \<and>
       held p (up (keys p)) \<and> \<not> held p (down (keys p)) \<longrightarrow> y \<le> snd (translation p')) \<and>
    (0 \<le> clientWidth cv0 \<and> 0 \<le> deltaTime \<and> is_double y \<and>
       \<not> held p (up (keys p)) \<and> held p (down (keys p)) \<longrightarrow> snd (translation p') \<le> y) \<and>
    (held p (up (keys p)) \<and> \<not> held p (down (keys p)) \<and> is_double (y + d) \<longrightarrow>
       snd (translation p') - y = d) \<and>
    (\<not> held p (up (keys p)) \<and> held p (down (keys p)) \<and> is_double (y - d) \<longrightarrow>
       y - snd (translation p') = d)"
proof (intro conjI)
  show "fst (translation p') = fst (translation p)"
    unfolding assms by (simp add: Plank_moveUpdate_def Let_def)
  show "held p (up (keys p)) \<and> \<not> held p (down (keys p)) \<longrightarrow> snd (translation p') = fadd y d"
    unfolding assms by (simp add: Plank_moveUpdate_y)
  show "\<not> held p (up (keys p)) \<and> held p (down (keys p)) \<longrightarrow> snd (translation p') = fsub y d"
    unfolding assms by (simp add: Plank_moveUpdate_y)
  show "held p (up (keys p)) \<and> held p (down (keys p)) \<longrightarrow> snd (translation p') = fsub (fadd y d) d"
    unfolding assms by (simp add: Plank_moveUpdate_y)
  show "\<not> held p (up (keys p)) \<and> \<not> held p (down (keys p)) \<longrightarrow> p' = p"
    unfolding assms by (simp add: Plank_moveUpdate_def held_def)
  show "0 \<le> clientWidth cv0 \<and> 0 \<le> deltaTime \<and> is_double y \<and>
      held p (up (keys p)) \<and> \<not> held p (down (keys p)) \<longrightarrow> y \<le> snd (translation p')"
  proof (intro impI, elim conjE)
    assume h: "0 \<le> clientWidth cv0" "0 \<le> deltaTime" "is_double y"
      "held p (up (keys p))" "\<not> held p (down (keys p))"
    have "0 \<le> d" unfolding assms(1) using h(1,2) by (rule PIXELS_PER_SEC_step_nonneg)
    then have "y \<le> fl (y + d)" by (intro fl_ge_double h(3)) simp
    then show "y \<le> snd (translation p')"
      using h(4,5) unfolding assms(3) by (simp add: Plank_moveUpdate_y assms(1,2) fadd_def)
  qed
  show "0 \<le> clientWidth cv0 \<and> 0 \<le> deltaTime \<and> is_double y \<and>
      \<not> held p (up (keys p)) \<and> held p (down (keys p)) \<longrightarrow> snd (translation p') \<le> y"
  proof (intro impI, elim conjE)
    assume h: "0 \<le> clientWidth cv0" "0 \<le> deltaTime" "is_double y"
      "\<not> held p (up (keys p))" "held p (down (keys p))"
    have "0 \<le> d" unfolding assms(1) using h(1,2) by (rule PIXELS_PER_SEC_step_nonneg)
    then have "fl (y - d) \<le> y" by (intro fl_le_double h(3)) simp
    then show "snd (translation p') \<le> y"
      using h(4,5) unfolding assms(3) by (simp add: Plank_moveUpdate_y assms(1,2) fsub_def)
  qed
  show "held p (up (keys p)) \<and> \<not> held p (down (keys p)) \<and> is_double (y + d) \<longrightarrow>
      snd (translation p') - y = d"
    unfolding assms(3) by (simp add: Plank_moveUpdate_y assms(1,2) [symmetric] fadd_def is_double_def)
  show "\<not> held p (up (keys p)) \<and> held p (down (keys p)) \<and> is_double (y - d) \<longrightarrow>
      y - snd (translation p') = d"
    unfolding assms(3) by (simp add: Plank_moveUpdate_y assms(1,2) [symmetric] fsub_def is_double_def)
qed

theorem Plank_moveUpdate_per_key_witness:
  "held (keydown ''w'' left_plank) ''w'' \<and> \<not> held (keydown ''w'' left_plank) ''s'' \<and>
   snd (translation (Plank_moveUpdate game_canvas (1 / 64) (keydown ''w'' left_plank))) = 333 / 64 \<and>
   \<not> held (keydown ''s'' left_plank) ''w'' \<and> held (keydown ''s'' left_plank) ''s'' \<and>
   snd (translation (Plank_moveUpdate game_canvas (1 / 64) (keydown ''s'' left_plank))) = - (333 / 64) \<and>
   \<not> held left_plank ''w'' \<and> \<not> held left_plank ''s'' \<and>
   Plank_moveUpdate game_canvas (1 / 64) left_plank = left_plank \<and>
   is_double (0 + 333 / 64) \<and>
   snd (translation (Plank_moveUpdate game_canvas (1 / 64) (keydown ''w'' left_plank))) - 0
     = fmul (PIXELS_PER_SEC game_canvas) (1 / 64)"
proof -
  have d: "333 / 64 = fmul (PIXELS_PER_SEC game_canvas) (1 / 64)"
    by (simp add: game_constants fmul_def fl_eval)
  have y: "0 = snd (translation (keydown ''w'' left_plank))"
      "0 = snd (translation (keydown ''s'' left_plank))" "0 = snd (translation left_plank)"
    by (simp_all add: keydown_def left_plank_def)
  have k: "up (keys (keydown ''w'' left_plank)) = ''w''" "down (keys (keydown ''w'' left_plank)) = ''s''"
      "up (keys (keydown ''s'' left_plank)) = ''w''" "down (keys (keydown ''s'' left_plank)) = ''s''"
      "up (keys left_plank) = ''w''" "down (keys left_plank) = ''s''"
    by (simp_all add: keydown_def left_plank_def)
  have h: "held (keydown ''w'' left_plank) ''w''" "\<not> held (keydown ''w'' left_plank) ''s''"
      "\<not> held (keydown ''s'' left_plank) ''w''" "held (keydown ''s'' left_plank) ''s''"
      "\<not> held left_plank ''w''" "\<not> held left_plank ''s''"
    by (simp_all add: held_def keydown_def left_plank_def)
  have a: "fadd 0 (333 / 64) = 333 / 64" "fsub 0 (333 / 64) = - (333 / 64)"
    by (simp_all add: fop_defs fl_eval)
  from Plank_moveUpdate_per_key [OF d y(1) refl] h(1,2) a(1)
  have 1: "snd (translation (Plank_moveUpdate game_canvas (1 / 64) (keydown ''w'' left_plank))) = 333 / 64"
    by (simp add: k)
  from Plank_moveUpdate_per_key [OF d y(2) refl] h(3,4) a(2)
  have 2: "snd (translation (Plank_moveUpdate game_canvas (1 / 64) (keydown ''s'' left_plank))) = - (333 / 64)"
    by (simp add: k)
  from Plank_moveUpdate_per_key [OF d y(3) refl] h(5,6)
  have 3: "Plank_moveUpdate game_canvas (1 / 64) left_plank = left_plank"
    by (simp add: k)
  have r: "is_double (0 + 333 / 64)"
    by (simp add: is_double_def fl_eval)
  from Plank_moveUpdate_per_key [OF d y(1) refl] h(1,2) r
  have "snd (translation (Plank_moveUpdate game_canvas (1 / 64) (keydown ''w'' left_plank))) - 0 = 333 / 64"
    by (simp add: k)
  then have 4: "snd (translation (Plank_moveUpdate game_canvas (1 / 64) (keydown ''w'' left_plank))) - 0
      = fmul (PIXELS_PER_SEC game_canvas) (1 / 64)"
    by (simp only: d)
  from h 1 2 3 r 4 show ?thesis by simp
qed

text \<open>
  C10, as the claim states it, fails: the two displacements are equal and opposite, but
  each of the two operations rounds. The left paddle at \<open>y = 333/64\<close> with both of its
  keys held, after a frame of \<^verbatim>\<open>1/60\<close> s, is at \<open>333/64 + 2 powi (- 50)\<close>
  (\<^verbatim>\<open>5.203125000000001\<close>).
\<close>

theorem both_keys_drift:
  "held both_keys_plank (up (keys both_keys_plank)) \<and>
   held both_keys_plank (down (keys both_keys_plank)) \<and>
   snd (translation both_keys_plank) = 333 / 64 \<and>
   snd (translation (Plank_moveUpdate game_canvas (fl (1 / 60)) both_keys_plank))
     = 5858197952790529 / 1125899906842624 \<and>
   snd (translation (Plank_moveUpdate game_canvas (fl (1 / 60)) both_keys_plank))
     \<noteq> snd (translation both_keys_plank)"
  by (simp add: both_keys_plank_def Plank_moveUpdate_def held_def keydown_def left_plank_def
      game_constants fop_defs fl_eval)

text \<open>
  C10, amended. With both keys of a paddle held, the Y translation after the update is
  \<open>(y + d) - d\<close> in double precision, \<open>d\<close> being \<^verbatim>\<open>PIXELS_PER_SEC * deltaTime\<close>; it is
  the value before the update whenever the sum \<open>y + d\<close> is itself a double, so that
  neither operation rounds.
\<close>

theorem Plank_moveUpdate_both_keys:
  fixes p :: plank
  assumes "held p (up (keys p))" and "held p (down (keys p))"
      and "d = fmul (PIXELS_PER_SEC cv0) deltaTime"
      and "y = snd (translation p)"
  shows "snd (translation (Plank_moveUpdate cv0 deltaTime p)) = fsub (fadd y d) d \<and>
         (is_double y \<and> is_double (y + d) \<longrightarrow>
            snd (translation (Plank_moveUpdate cv0 deltaTime p)) = y)"
proof (intro conjI impI)
  show f: "snd (translation (Plank_moveUpdate cv0 deltaTime p)) = fsub (fadd y d) d"
    using assms(1,2) unfolding assms(3,4) by (simp add: Plank_moveUpdate_y)
  assume "is_double y \<and> is_double (y + d)"
  then have "fsub (fadd y d) d = y" by (simp add: fop_defs is_double_def)
  with f show "snd (translation (Plank_moveUpdate cv0 deltaTime p)) = y" by simp
qed

theorem Plank_moveUpdate_both_keys_witness:
  "held both_keys_plank (up (keys both_keys_plank)) \<and>
   held both_keys_plank (down (keys both_keys_plank)) \<and>
   is_double (333 / 64) \<and> is_double (333 / 64 + 333 / 64) \<and>
   snd (translation (Plank_moveUpdate game_canvas (1 / 64) both_keys_plank)) = 333 / 64"
proof -
  have h: "held both_keys_plank (up (keys both_keys_plank))"
      "held both_keys_plank (down (keys both_keys_plank))"
    by (simp_all add: both_keys_plank_def Plank_moveUpdate_def held_def keydown_def left_plank_def)
  have d: "333 / 64 = fmul (PIXELS_PER_SEC game_canvas) (1 / 64)"
    by (simp add: game_constants fmul_def fl_eval)
  have y: "333 / 64 = snd (translation both_keys_plank)"
    by (simp add: both_keys_plank_def Plank_moveUpdate_def keydown_def left_plank_def
        game_constants fop_defs fl_eval)
  have r: "is_double (333 / 64)" "is_double (333 / 64 + 333 / 64)"
    by (simp_all add: is_double_def fl_eval)
  from Plank_moveUpdate_both_keys [OF h d y] r
  have "snd (translation (Plank_moveUpdate game_canvas (1 / 64) both_keys_plank)) = 333 / 64"
    by simp
  with h r show ?thesis by simp
qed

section \<open>Registering a collidable\<close>

text \<open>
  C8. \<^verbatim>\<open>registerCollisionObject\<close> throws exactly when its argument is not an instance of
  \<^verbatim>\<open>Drawable\<close>; when it throws the ball is unchanged, and so is its list of
  collidables; when it returns, the object has been appended at the end of that list and
  nothing else has changed.
\<close>

theorem registerCollisionObject_spec:
  "((\<exists>e. fst (registerCollisionObject obj b) = Throw e) \<longleftrightarrow> \<not> instanceof_Drawable obj) \<and>
   (\<not> instanceof_Drawable obj \<longrightarrow> snd (registerCollisionObject obj b) = b) \<and>
   (\<forall>c r. obj = Instance c r \<longrightarrow>
      fst (registerCollisionObject obj b) = Normal \<and>
      snd (registerCollisionObject obj b) = b\<lparr>collidables := collidables b @ [r]\<rparr>)"
  by (cases obj) (simp_all add: registerCollisionObject_def)

theorem registerCollisionObject_spec_witness:
  "instanceof_Drawable (Instance Plank 1) \<and>
   fst (registerCollisionObject (Instance Plank 1) (game_ball (500, 400) (1, 0) False)) = Normal \<and>
   collidables (snd (registerCollisionObject (Instance Plank 1) (game_ball (500, 400) (1, 0) False)))
     = [0, 1, 1] \<and>
   \<not> instanceof_Drawable (String ''plank'') \<and>
   fst (registerCollisionObject (String ''plank'') (game_ball (500, 400) (1, 0) False))
     = Throw (Error ''Object must be of type Drawable'') \<and>
   collidables (snd (registerCollisionObject (String ''plank'') (game_ball (500, 400) (1, 0) False)))
     = [0, 1]"
proof -
  have i: "instanceof_Drawable (Instance Plank 1)" "\<not> instanceof_Drawable (String ''plank'')"
    by simp_all
  from registerCollisionObject_spec [of "Instance Plank 1" "game_ball (500, 400) (1, 0) False"]
  have ok: "fst (registerCollisionObject (Instance Plank 1) (game_ball (500, 400) (1, 0) False)) = Normal"
    "collidables (snd (registerCollisionObject (Instance Plank 1) (game_ball (500, 400) (1, 0) False)))
       = [0, 1, 1]"
    by (simp_all add: game_ball_def)
  from registerCollisionObject_spec [of "String ''plank''" "game_ball (500, 400) (1, 0) False"] i(2)
  have "snd (registerCollisionObject (String ''plank'') (game_ball (500, 400) (1, 0) False))
      = game_ball (500, 400) (1, 0) False"
    by blast
  then have ko: "collidables (snd (registerCollisionObject (String ''plank'') (game_ball (500, 400) (1, 0) False)))
      = [0, 1]"
    by (simp add: game_ball_def)
  have th: "fst (registerCollisionObject (String ''plank'') (game_ball (500, 400) (1, 0) False))
      = Throw (Error ''Object must be of type Drawable'')"
    by (simp add: registerCollisionObject_def)
  from i ok ko th show ?thesis by simp
qed


section \<open>The collision test\<close>

lemma collides_within_expanded:
  "collides inside (fst pos) (snd pos) (fdiv (POINT_SIZE cv0) 2) (getCollisionRange cv0 d) =
     (\<not> inside \<and> within_expanded cv0 d pos)"
  by (simp add: collides_def getCollisionRange_def within_expanded_def Let_def)

lemma collidables_loop_overlap:
  "collidables_loop cv0 st inside (fst pos) (snd pos) (fdiv (POINT_SIZE cv0) 2) objs =
     (if \<not> inside \<and> list_ex (\<lambda>obj. within_expanded cv0 (st obj) pos) objs
      then Some (- 1, 1) else None)"
  by (cases inside; induction objs) (simp_all add: collides_within_expanded Let_def)

lemma detectCollision_by_case:
  "detectCollision cv0 cv st b g =
     (case collision_case cv0 cv st b of
        PaddleHit \<Rightarrow> (Some (- 1, 1), b, g)
      | WallContact \<Rightarrow> (Some (1, - 1), b, g)
      | SideExit \<Rightarrow>
          (None,
           b\<lparr>translation := (fdiv (clientWidth cv) 2, fdiv (clientHeight cv) 2),
             moveVector := fst (randomMoveVector g),
             color := fst (randomColor (snd (randomMoveVector g)))\<rparr>,
           snd (randomColor (snd (randomMoveVector g))))
      | NoCollision \<Rightarrow> (None, b, g))"
  unfolding detectCollision_def collision_case_def overlaps_paddle_def Let_def
    collidables_loop_overlap
  by (simp add: case_prod_beta)

lemma Ball_moveUpdate_fields:
  "isInsideCollidable (fst (Ball_moveUpdate ver cv0 cv st deltaTime b g))
     = isInsideCollidable (bounce ver (fst (detectCollision cv0 cv st b g)) (fst (snd (detectCollision cv0 cv st b g))))"
  "moveVector (fst (Ball_moveUpdate ver cv0 cv st deltaTime b g))
     = moveVector (bounce ver (fst (detectCollision cv0 cv st b g)) (fst (snd (detectCollision cv0 cv st b g))))"
  "color (fst (Ball_moveUpdate ver cv0 cv st deltaTime b g))
     = color (fst (snd (detectCollision cv0 cv st b g)))"
  "collidables (fst (Ball_moveUpdate ver cv0 cv st deltaTime b g))
     = collidables (fst (snd (detectCollision cv0 cv st b g)))"
  "snd (Ball_moveUpdate ver cv0 cv st deltaTime b g) = snd (snd (detectCollision cv0 cv st b g))"
  by (simp_all add: Ball_moveUpdate_def Let_def case_prod_beta bounce_def split: option.splits)

lemma bounce_fields:
  "isInsideCollidable (bounce ver m b) = (m \<noteq> None)"
  "translation (bounce ver m b) = translation b"
  "color (bounce ver m b) = color b"
  "collidables (bounce ver m b) = collidables b"
  "moveVector (bounce ver None b) = moveVector b"
  "moveVector (bounce ver (Some (mx, my)) b) =
     (fmul (fmul (fst (moveVector b)) mx) (ACCELERATION ver),
      fmul (fmul (snd (moveVector b)) my) (ACCELERATION ver))"
  by (simp_all add: bounce_def split: option.splits)

lemmas game_defs = game_ball_def game_store_def game_canvas_size game_random_def left_plank_def
  right_plank_def drawable.truncate_def

lemmas collision_case_eval = collision_case_def overlaps_paddle_def within_expanded_def
  game_constants fop_defs

text \<open>
  C4. The collision test has one outcome per frame, the first that matches in the
  specification's order (\<open>collision_case\<close>): a paddle's expanded rectangle holds the ball
  and the flag is clear, then the modifier is \<open>(- 1, 1)\<close> and the frame sets the flag;
  else the ball is at or beyond the top or bottom edge, then the modifier is \<open>(1, - 1)\<close>,
  whatever the flag; else it is at or beyond the left or right edge, then it is reset and
  there is no modifier; else there is no modifier and the frame clears the flag. Only the
  reset changes the ball or draws random numbers.
\<close>

theorem detectCollision_priority:
  "(collision_case cv0 cv st b = PaddleHit \<longrightarrow>
      detectCollision cv0 cv st b g = (Some (- 1, 1), b, g) \<and>
      isInsideCollidable (fst (Ball_moveUpdate ver cv0 cv st deltaTime b g))) \<and>
   (collision_case cv0 cv st b = WallContact \<longrightarrow>
      detectCollision cv0 cv st b g = (Some (1, - 1), b, g)) \<and>
   (collision_case cv0 cv st b = SideExit \<longrightarrow>
      detectCollision cv0 cv st b g =
        (None,
         b\<lparr>translation := (fdiv (clientWidth cv) 2, fdiv (clientHeight cv) 2),
           moveVector := fst (randomMoveVector g),
           color := fst (randomColor (snd (randomMoveVector g)))\<rparr>,
         snd (randomColor (snd (randomMoveVector g))))) \<and>
   (collision_case cv0 cv st b = NoCollision \<longrightarrow>
      detectCollision cv0 cv st b g = (None, b, g) \<and>
      \<not> isInsideCollidable (fst (Ball_moveUpdate ver cv0 cv st deltaTime b g))) \<and>
   (isInsideCollidable b \<and> (snd (translation b) \<le> 0 \<or> clientHeight cv \<le> snd (translation b)) \<longrightarrow>
      fst (detectCollision cv0 cv st b g) = Some (1, - 1))"
proof (intro conjI impI)
  assume "collision_case cv0 cv st b = PaddleHit"
  then show "detectCollision cv0 cv st b g = (Some (- 1, 1), b, g)"
    and "isInsideCollidable (fst (Ball_moveUpdate ver cv0 cv st deltaTime b g))"
    by (simp_all add: detectCollision_by_case Ball_moveUpdate_fields bounce_fields)
next
  assume "collision_case cv0 cv st b = WallContact"
  then show "detectCollision cv0 cv st b g = (Some (1, - 1), b, g)"
    by (simp add: detectCollision_by_case)
next
  assume "collision_case cv0 cv st b = SideExit"
  then show "detectCollision cv0 cv st b g =
        (None,
         b\<lparr>translation := (fdiv (clientWidth cv) 2, fdiv (clientHeight cv) 2),
           moveVector := fst (randomMoveVector g),
           color := fst (randomColor (snd (randomMoveVector g)))\<rparr>,
         snd (randomColor (snd (randomMoveVector g))))"
    by (simp add: detectCollision_by_case)
next
  assume "collision_case cv0 cv st b = NoCollision"
  then show "detectCollision cv0 cv st b g = (None, b, g)"
    and "\<not> isInsideCollidable (fst (Ball_moveUpdate ver cv0 cv st deltaTime b g))"
    by (simp_all add: detectCollision_by_case Ball_moveUpdate_fields bounce_fields)
next
  assume "isInsideCollidable b \<and> (snd (translation b) \<le> 0 \<or> clientHeight cv \<le> snd (translation b))"
  then have "collision_case cv0 cv st b = WallContact"
    by (simp add: collision_case_def)
  then show "fst (detectCollision cv0 cv st b g) = Some (1, - 1)"
    by (simp add: detectCollision_by_case)
qed

theorem detectCollision_priority_witness:
  "collision_case game_canvas game_canvas game_store (tie_ball False) = PaddleHit \<and>
   snd (translation (tie_ball False)) \<le> 0 \<and>
   fst (detectCollision game_canvas game_canvas game_store (tie_ball False) game_random) = Some (- 1, 1) \<and>
   collision_case game_canvas game_canvas game_store (tie_ball True) = WallContact \<and>
   fst (detectCollision game_canvas game_canvas game_store (tie_ball True) game_random) = Some (1, - 1) \<and>
   collision_case game_canvas game_canvas game_store exit_ball = SideExit \<and>
   translation (fst (snd (detectCollision game_canvas game_canvas game_store exit_ball game_random)))
     = (500, 400) \<and>
   collision_case game_canvas game_canvas game_store free_ball = NoCollision \<and>
   detectCollision game_canvas game_canvas game_store free_ball game_random = (None, free_ball, game_random)"
proof -
  have c: "collision_case game_canvas game_canvas game_store (tie_ball False) = PaddleHit"
      "collision_case game_canvas game_canvas game_store (tie_ball True) = WallContact"
      "collision_case game_canvas game_canvas game_store exit_ball = SideExit"
      "collision_case game_canvas game_canvas game_store free_ball = NoCollision"
    by (simp_all add: collision_case_eval tie_ball_def exit_ball_def free_ball_def game_defs fl_eval)
  have y: "snd (translation (tie_ball False)) \<le> 0"
    by (simp add: tie_ball_def game_defs)
  have h: "fdiv (clientWidth game_canvas) 2 = 500" "fdiv (clientHeight game_canvas) 2 = 400"
    by (simp_all add: game_canvas_size fdiv_def fl_eval)
  note t = detectCollision_priority [of game_canvas game_canvas game_store _ game_random Textured 0]
  from t [of "tie_ball False"] c(1)
  have 1: "fst (detectCollision game_canvas game_canvas game_store (tie_ball False) game_random) = Some (- 1, 1)"
    by simp
  from t [of "tie_ball True"] c(2)
  have 2: "fst (detectCollision game_canvas game_canvas game_store (tie_ball True) game_random) = Some (1, - 1)"
    by simp
  from t [of exit_ball] c(3) h
  have 3: "translation (fst (snd (detectCollision game_canvas game_canvas game_store exit_ball game_random)))
      = (500, 400)"
    by simp
  from t [of free_ball] c(4)
  have 4: "detectCollision game_canvas game_canvas game_store free_ball game_random = (None, free_ball, game_random)"
    by simp
  from c y 1 2 3 4 show ?thesis by simp
qed

section \<open>The bounce\<close>

lemma fmul_modifier:
  assumes "is_double v"
  shows "fmul (fmul v (- 1)) a = - fmul v a" and "fmul (fmul v 1) a = fmul v a"
  using assms by (simp_all add: fmul_minus_one fmul_one fmul_minus_left)

lemma sgn_fmul: "is_double v \<Longrightarrow> 1 \<le> a \<Longrightarrow> sgn (fmul v a) = sgn v"
  unfolding fmul_def by (rule fl_sgn_scaled)

lemma abs_fmul: "0 \<le> a \<Longrightarrow> \<bar>fmul v a\<bar> = fmul \<bar>v\<bar> a"
  by (simp add: fmul_def fl_abs [symmetric] abs_mult)

lemma Ball_moveUpdate_moveVector:
  "collision_case cv0 cv st b = PaddleHit \<Longrightarrow>
     moveVector (fst (Ball_moveUpdate ver cv0 cv st deltaTime b g)) =
       (fmul (fmul (fst (moveVector b)) (- 1)) (ACCELERATION ver),
        fmul (fmul (snd (moveVector b)) 1) (ACCELERATION ver))"
  "collision_case cv0 cv st b = WallContact \<Longrightarrow>
     moveVector (fst (Ball_moveUpdate ver cv0 cv st deltaTime b g)) =
       (fmul (fmul (fst (moveVector b)) 1) (ACCELERATION ver),
        fmul (fmul (snd (moveVector b)) (- 1)) (ACCELERATION ver))"
  "collision_case cv0 cv st b = NoCollision \<Longrightarrow>
     moveVector (fst (Ball_moveUpdate ver cv0 cv st deltaTime b g)) = moveVector b"
  by (simp_all add: Ball_moveUpdate_fields detectCollision_by_case bounce_fields)

lemma Ball_moveUpdate_flag:
  "isInsideCollidable (fst (Ball_moveUpdate ver cv0 cv st deltaTime b g)) =
     (collision_case cv0 cv st b = PaddleHit \<or> collision_case cv0 cv st b = WallContact)"
  by (cases "collision_case cv0 cv st b")
    (simp_all add: Ball_moveUpdate_fields detectCollision_by_case bounce_fields)

text \<open>
  C5. A collision changes the sign of one velocity component and scales both. For a
  velocity \<open>(vx, vy)\<close> of doubles (every velocity the script stores is one), on a paddle
  collision the new velocity is \<open>(- (vx * a), vy * a)\<close>, on a top or bottom wall collision
  \<open>(vx * a, - (vy * a))\<close>, with \<open>a\<close> the constant \<^verbatim>\<open>ACCELERATION\<close> and the products
  rounded to doubles; so the sign of X is reversed and that of Y kept by a paddle, the
  sign of Y is reversed and that of X kept by a wall, and both magnitudes are
  multiplied by \<^verbatim>\<open>ACCELERATION\<close>. The collision test yields no other modifier.
\<close>

theorem bounce_flips_one_axis:
  assumes "is_double (fst (moveVector b))" and "is_double (snd (moveVector b))"
      and "b' = fst (Ball_moveUpdate ver cv0 cv st deltaTime b g)"
  shows
    "(fst (detectCollision cv0 cv st b g) = None \<or>
      fst (detectCollision cv0 cv st b g) = Some (- 1, 1) \<or>
      fst (detectCollision cv0 cv st b g) = Some (1, - 1)) \<and>
     (collision_case cv0 cv st b = PaddleHit \<longrightarrow>
        sgn (fst (moveVector b')) = - sgn (fst (moveVector b)) \<and>
        sgn (snd (moveVector b')) = sgn (snd (moveVector b)) \<and>
        \<bar>fst (moveVector b')\<bar> = fmul \<bar>fst (moveVector b)\<bar> (ACCELERATION ver) \<and>
        \<bar>snd (moveVector b')\<bar> = fmul \<bar>snd (moveVector b)\<bar> (ACCELERATION ver)) \<and>
     (collision_case cv0 cv st b = WallContact \<longrightarrow>
        sgn (fst (moveVector b')) = sgn (fst (moveVector b)) \<and>
        sgn (snd (moveVector b')) = - sgn (snd (moveVector b)) \<and>
        \<bar>fst (moveVector b')\<bar> = fmul \<bar>fst (moveVector b)\<bar> (ACCELERATION ver) \<and>
        \<bar>snd (moveVector b')\<bar> = fmul \<bar>snd (moveVector b)\<bar> (ACCELERATION ver))"
proof (intro conjI impI)
  show "fst (detectCollision cv0 cv st b g) = None \<or>
      fst (detectCollision cv0 cv st b g) = Some (- 1, 1) \<or>
      fst (detectCollision cv0 cv st b g) = Some (1, - 1)"
    by (cases "collision_case cv0 cv st b") (simp_all add: detectCollision_by_case)
next
  have a1: "1 \<le> ACCELERATION ver" by (rule ACCELERATION_ge_1)
  then have a0: "0 \<le> ACCELERATION ver" by simp
  note sg = sgn_fmul [OF assms(1) a1] sgn_fmul [OF assms(2) a1]
  {
    assume "collision_case cv0 cv st b = PaddleHit"
    then have mv: "moveVector b' =
        (- fmul (fst (moveVector b)) (ACCELERATION ver), fmul (snd (moveVector b)) (ACCELERATION ver))"
      unfolding assms(3)
      by (simp add: Ball_moveUpdate_moveVector fmul_modifier [OF assms(1)] fmul_modifier [OF assms(2)])
    show "sgn (fst (moveVector b')) = - sgn (fst (moveVector b))"
      and "sgn (snd (moveVector b')) = sgn (snd (moveVector b))"
      and "\<bar>fst (moveVector b')\<bar> = fmul \<bar>fst (moveVector b)\<bar> (ACCELERATION ver)"
      and "\<bar>snd (moveVector b')\<bar> = fmul \<bar>snd (moveVector b)\<bar> (ACCELERATION ver)"
      by (simp_all add: mv sgn_minus sg abs_fmul [OF a0])
  }
  {
    assume "collision_case cv0 cv st b = WallContact"
    then have mv: "moveVector b' =
        (fmul (fst (moveVector b)) (ACCELERATION ver), - fmul (snd (moveVector b)) (ACCELERATION ver))"
      unfolding assms(3)
      by (simp add: Ball_moveUpdate_moveVector fmul_modifier [OF assms(1)] fmul_modifier [OF assms(2)])
    show "sgn (fst (moveVector b')) = sgn (fst (moveVector b))"
      and "sgn (snd (moveVector b')) = - sgn (snd (moveVector b))"
      and "\<bar>fst (moveVector b')\<bar> = fmul \<bar>fst (moveVector b)\<bar> (ACCELERATION ver)"
      and "\<bar>snd (moveVector b')\<bar> = fmul \<bar>snd (moveVector b)\<bar> (ACCELERATION ver)"
      by (simp_all add: mv sgn_minus sg abs_fmul [OF a0])
  }
qed

theorem bounce_flips_one_axis_witness:
  "is_double (- 1) \<and> is_double (- 1 / 2) \<and>
   moveVector edge_ball = (- 1, - 1 / 2) \<and>
   collision_case game_canvas game_canvas game_store edge_ball = PaddleHit \<and>
   sgn (fst (moveVector edge_ball_1)) = 1 \<and> sgn (snd (moveVector edge_ball_1)) = - 1 \<and>
   \<bar>fst (moveVector edge_ball_1)\<bar> = ACCELERATION Textured \<and>
   moveVector wall_ball = (- 1, - 1 / 2) \<and>
   collision_case game_canvas game_canvas game_store wall_ball = WallContact \<and>
   sgn (fst (moveVector wall_ball_1)) = - 1 \<and> sgn (snd (moveVector wall_ball_1)) = 1 \<and>
   \<bar>fst (moveVector wall_ball_1)\<bar> = ACCELERATION Textured"
proof -
  have d: "is_double (- 1)" "is_double (- 1 / 2)"
    by (simp_all add: is_double_def fl_eval)
  have v: "moveVector edge_ball = (- 1, - 1 / 2)" "moveVector wall_ball = (- 1, - 1 / 2)"
    by (simp_all add: edge_ball_def wall_ball_def game_ball_def)
  have c: "collision_case game_canvas game_canvas game_store edge_ball = PaddleHit"
      "collision_case game_canvas game_canvas game_store wall_ball = WallContact"
    by (simp_all add: collision_case_eval edge_ball_def wall_ball_def game_defs fl_eval)
  have m: "fmul 1 (ACCELERATION Textured) = ACCELERATION Textured"
    by (simp add: fmul_def ACCELERATION_def)
  have de: "is_double (fst (moveVector edge_ball))" "is_double (snd (moveVector edge_ball))"
      "is_double (fst (moveVector wall_ball))" "is_double (snd (moveVector wall_ball))"
    using d by (simp_all add: v)
  from bounce_flips_one_axis [OF de(1,2) edge_ball_1_def] c(1)
  have 1: "sgn (fst (moveVector edge_ball_1)) = 1" "sgn (snd (moveVector edge_ball_1)) = - 1"
      "\<bar>fst (moveVector edge_ball_1)\<bar> = ACCELERATION Textured"
    by (simp_all add: v m)
  from bounce_flips_one_axis [OF de(3,4) wall_ball_1_def] c(2)
  have 2: "sgn (fst (moveVector wall_ball_1)) = - 1" "sgn (snd (moveVector wall_ball_1)) = 1"
      "\<bar>fst (moveVector wall_ball_1)\<bar> = ACCELERATION Textured"
    by (simp_all add: v m)
  from d v c 1 2 show ?thesis by simp
qed

section \<open>One frame of the ball, case by case\<close>

lemma Ball_moveUpdate_PaddleHit:
  assumes "collision_case cv0 cv st b = PaddleHit"
  shows "Ball_moveUpdate ver cv0 cv st deltaTime b g =
    (b\<lparr>isInsideCollidable := True,
       moveVector :=
         (fmul (fmul (fst (moveVector b)) (- 1)) (ACCELERATION ver),
          fmul (fmul (snd (moveVector b)) 1) (ACCELERATION ver)),
       translation :=
         (fadd (fst (translation b))
            (fmul (fmul (PIXELS_PER_SEC cv0) (fmul (fmul (fst (moveVector b)) (- 1)) (ACCELERATION ver))) deltaTime),
          fadd (snd (translation b))
            (fmul (fmul (PIXELS_PER_SEC cv0) (fmul (fmul (snd (moveVector b)) 1) (ACCELERATION ver))) deltaTime))\<rparr>,
     g)"
  using assms by (simp add: Ball_moveUpdate_def detectCollision_by_case bounce_def)

lemma Ball_moveUpdate_WallContact:
  assumes "collision_case cv0 cv st b = WallContact"
  shows "Ball_moveUpdate ver cv0 cv st deltaTime b g =
    (b\<lparr>isInsideCollidable := True,
       moveVector :=
         (fmul (fmul (fst (moveVector b)) 1) (ACCELERATION ver),
          fmul (fmul (snd (moveVector b)) (- 1)) (ACCELERATION ver)),
       translation :=
         (fadd (fst (translation b))
            (fmul (fmul (PIXELS_PER_SEC cv0) (fmul (fmul (fst (moveVector b)) 1) (ACCELERATION ver))) deltaTime),
          fadd (snd (translation b))
            (fmul (fmul (PIXELS_PER_SEC cv0) (fmul (fmul (snd (moveVector b)) (- 1)) (ACCELERATION ver))) deltaTime))\<rparr>,
     g)"
  using assms by (simp add: Ball_moveUpdate_def detectCollision_by_case bounce_def)

lemma Ball_moveUpdate_NoCollision:
  assumes "collision_case cv0 cv st b = NoCollision"
  shows "Ball_moveUpdate ver cv0 cv st deltaTime b g =
    (b\<lparr>isInsideCollidable := False,
       translation :=
         (fadd (fst (translation b)) (fmul (fmul (PIXELS_PER_SEC cv0) (fst (moveVector b))) deltaTime),
          fadd (snd (translation b)) (fmul (fmul (PIXELS_PER_SEC cv0) (snd (moveVector b))) deltaTime))\<rparr>,
     g)"
  using assms by (simp add: Ball_moveUpdate_def detectCollision_by_case bounce_def)

lemma Ball_moveUpdate_SideExit:
  assumes "collision_case cv0 cv st b = SideExit"
  shows "Ball_moveUpdate ver cv0 cv st deltaTime b g =
    (b\<lparr>isInsideCollidable := False,
       moveVector := fst (randomMoveVector g),
       color := fst (randomColor (snd (randomMoveVector g))),
       translation :=
         (fadd (fdiv (clientWidth cv) 2)
            (fmul (fmul (PIXELS_PER_SEC cv0) (fst (fst (randomMoveVector g)))) deltaTime),
          fadd (fdiv (clientHeight cv) 2)
            (fmul (fmul (PIXELS_PER_SEC cv0) (snd (fst (randomMoveVector g)))) deltaTime))\<rparr>,
     snd (randomColor (snd (randomMoveVector g))))"
  using assms by (simp add: Ball_moveUpdate_def detectCollision_by_case bounce_def)

section \<open>Frames of the concrete game\<close>

lemma edge_ball_case: "collision_case game_canvas game_canvas game_store edge_ball = PaddleHit"
  by (simp add: collision_case_eval edge_ball_def game_defs fl_eval)

lemma edge_ball_1_value:
  "edge_ball_1 = \<lparr>translation = (4425754204123955 / 281474976710656, 7288030361341133 / 35184372088832),
     moveVector = (2476979795053773 / 2251799813685248, - (2476979795053773 / 4503599627370496)),
     color = (1, 0, 0, 1), collidables = [0, 1], isInsideCollidable = True\<rparr>"
  unfolding edge_ball_1_def Ball_moveUpdate_PaddleHit [OF edge_ball_case]
  by (simp add: edge_ball_def game_ball_def game_constants ACCELERATION_value fop_defs fl_eval)

lemma edge_ball_1_case: "collision_case game_canvas game_canvas game_store edge_ball_1 = NoCollision"
  by (simp add: collision_case_eval edge_ball_1_value game_defs fl_eval)

lemma edge_ball_1_overlap: "overlaps_paddle game_canvas game_store edge_ball_1"
  by (simp add: overlaps_paddle_def within_expanded_def game_constants fop_defs
      edge_ball_1_value game_defs fl_eval)

lemma edge_ball_2_value:
  "edge_ball_2 = \<lparr>translation = (3018379320570675 / 140737488355328, 3593671292013773 / 17592186044416),
     moveVector = (2476979795053773 / 2251799813685248, - (2476979795053773 / 4503599627370496)),
     color = (1, 0, 0, 1), collidables = [0, 1], isInsideCollidable = False\<rparr>"
  unfolding edge_ball_2_def Ball_moveUpdate_NoCollision [OF edge_ball_1_case]
  by (simp add: edge_ball_1_value game_constants fop_defs fl_eval)

lemma wall_ball_case: "collision_case game_canvas game_canvas game_store wall_ball = WallContact"
  by (simp add: collision_case_eval wall_ball_def game_defs fl_eval)

lemma wall_ball_1_value:
  "wall_ball_1 = \<lparr>translation = (2411998657852211 / 70368744177664, 6444017748069581 / 2251799813685248),
     moveVector = (- (2476979795053773 / 2251799813685248), 2476979795053773 / 4503599627370496),
     color = (1, 0, 0, 1), collidables = [0, 1], isInsideCollidable = True\<rparr>"
  unfolding wall_ball_1_def Ball_moveUpdate_WallContact [OF wall_ball_case]
  by (simp add: wall_ball_def game_ball_def game_constants ACCELERATION_value fop_defs fl_eval)

lemma wall_ball_1_overlap: "overlaps_paddle game_canvas game_store wall_ball_1"
  by (simp add: overlaps_paddle_def within_expanded_def game_constants fop_defs
      wall_ball_1_value game_defs fl_eval)

lemma corner_ball_case: "collision_case game_canvas game_canvas game_store corner_ball = PaddleHit"
  by (simp add: collision_case_eval corner_ball_def game_defs fl_eval)

lemma corner_ball_1_value:
  "corner_ball_1 = \<lparr>translation = (4425754204123955 / 281474976710656, - (4192217934384333 / 2251799813685248)),
     moveVector = (2476979795053773 / 2251799813685248, - (2476979795053773 / 4503599627370496)),
     color = (1, 0, 0, 1), collidables = [0, 1], isInsideCollidable = True\<rparr>"
  unfolding corner_ball_1_def Ball_moveUpdate_PaddleHit [OF corner_ball_case]
  by (simp add: corner_ball_def game_ball_def game_constants ACCELERATION_value fop_defs fl_eval)

lemma corner_ball_1_case: "collision_case game_canvas game_canvas game_store corner_ball_1 = WallContact"
  by (simp add: collision_case_eval corner_ball_1_value game_defs fl_eval)

lemma flagged_ball_case: "collision_case game_canvas game_canvas game_store flagged_ball = NoCollision"
  by (simp add: collision_case_eval flagged_ball_def game_defs fl_eval)

lemma flagged_ball_overlap: "overlaps_paddle game_canvas game_store flagged_ball"
  by (simp add: overlaps_paddle_def within_expanded_def game_constants fop_defs
      flagged_ball_def game_defs fl_eval)

lemma exit_ball_case: "collision_case game_canvas game_canvas game_store exit_ball = SideExit"
  by (simp add: collision_case_eval exit_ball_def game_defs fl_eval)

lemma game_random_vector: "randomMoveVector game_random = ((1, 1 / 4), game_random\<lparr>drawn := 2\<rparr>)"
  by (simp add: randomMoveVector_def Math_random_def game_random_def fop_defs fl_eval)

lemma game_random_color:
  "randomColor (game_random\<lparr>drawn := 2\<rparr>) = ((3 / 4, 3 / 4, 3 / 4, 1), game_random\<lparr>drawn := 5\<rparr>)"
  by (simp add: randomColor_def Math_random_def game_random_def)

lemma exit_ball_frame:
  "Ball_moveUpdate Textured game_canvas game_canvas game_store (1 / 64) exit_ball game_random =
     (\<lparr>translation = (32333 / 64, 102733 / 256), moveVector = (1, 1 / 4),
       color = (3 / 4, 3 / 4, 3 / 4, 1), collidables = [0, 1], isInsideCollidable = False\<rparr>,
      game_random\<lparr>drawn := 5\<rparr>)"
  unfolding Ball_moveUpdate_SideExit [OF exit_ball_case] game_random_vector
  by (simp add: game_random_color exit_ball_def game_ball_def game_constants game_canvas_size
      fop_defs fl_eval)

section \<open>The debounce flag\<close>

text \<open>
  C9. \<^verbatim>\<open>bounce\<close> sets the flag for every modifier, the wall's \<open>(1, - 1)\<close> too. So a
  ball at the top or bottom wall that overlaps no paddle leaves the frame with the flag
  set, and on the next frame the collision test does not answer \<open>(- 1, 1)\<close>, wherever
  the paddles are then: a paddle overlap on that frame is not detected. A ball whose flag
  is set never gets the paddle modifier.
\<close>

theorem wall_contact_sets_flag:
  "isInsideCollidable (bounce ver (Some m) b) \<and>
   ((snd (translation b) \<le> 0 \<or> clientHeight cv \<le> snd (translation b)) \<and> \<not> overlaps_paddle cv0 st b \<longrightarrow>
      fst (detectCollision cv0 cv st b g) = Some (1, - 1) \<and>
      isInsideCollidable (fst (Ball_moveUpdate ver cv0 cv st deltaTime b g)) \<and>
      collision_case cv0 cv' st' (fst (Ball_moveUpdate ver cv0 cv st deltaTime b g)) \<noteq> PaddleHit \<and>
      fst (detectCollision cv0 cv' st' (fst (Ball_moveUpdate ver cv0 cv st deltaTime b g)) g')
        \<noteq> Some (- 1, 1)) \<and>
   (isInsideCollidable b \<longrightarrow> fst (detectCollision cv0 cv st b g) \<noteq> Some (- 1, 1))"
proof -
  have flagged: "fst (detectCollision cv0 c s x r) \<noteq> Some (- 1, 1)"
    and flagged': "collision_case cv0 c s x \<noteq> PaddleHit"
    if "isInsideCollidable x" for c s x r
  proof -
    show "collision_case cv0 c s x \<noteq> PaddleHit" using that by (simp add: collision_case_def)
    then show "fst (detectCollision cv0 c s x r) \<noteq> Some (- 1, 1)"
      by (cases "collision_case cv0 c s x") (simp_all add: detectCollision_by_case)
  qed
  have wall: "collision_case cv0 cv st b = WallContact"
    if "(snd (translation b) \<le> 0 \<or> clientHeight cv \<le> snd (translation b)) \<and> \<not> overlaps_paddle cv0 st b"
    using that by (simp add: collision_case_def)
  show ?thesis
  proof (intro conjI impI)
    show "isInsideCollidable (bounce ver (Some m) b)" by (simp add: bounce_fields)
  next
    assume a: "(snd (translation b) \<le> 0 \<or> clientHeight cv \<le> snd (translation b)) \<and> \<not> overlaps_paddle cv0 st b"
    show "fst (detectCollision cv0 cv st b g) = Some (1, - 1)"
      using wall [OF a] by (simp add: detectCollision_by_case)
    show f: "isInsideCollidable (fst (Ball_moveUpdate ver cv0 cv st deltaTime b g))"
      using wall [OF a] by (simp add: Ball_moveUpdate_flag)
    show "collision_case cv0 cv' st' (fst (Ball_moveUpdate ver cv0 cv st deltaTime b g)) \<noteq> PaddleHit"
      using f by (rule flagged')
    show "fst (detectCollision cv0 cv' st' (fst (Ball_moveUpdate ver cv0 cv st deltaTime b g)) g')
        \<noteq> Some (- 1, 1)"
      using f by (rule flagged)
  next
    assume "isInsideCollidable b"
    then show "fst (detectCollision cv0 cv st b g) \<noteq> Some (- 1, 1)" by (rule flagged)
  qed
qed

theorem wall_contact_sets_flag_witness:
  "snd (translation wall_ball) \<le> 0 \<and> \<not> isInsideCollidable wall_ball \<and>
   \<not> overlaps_paddle game_canvas game_store wall_ball \<and>
   fst (detectCollision game_canvas game_canvas game_store wall_ball game_random) = Some (1, - 1) \<and>
   isInsideCollidable wall_ball_1 \<and>
   overlaps_paddle game_canvas game_store wall_ball_1 \<and>
   fst (detectCollision game_canvas game_canvas game_store wall_ball_1 game_random) \<noteq> Some (- 1, 1)"
proof -
  have h: "snd (translation wall_ball) \<le> 0" "\<not> isInsideCollidable wall_ball"
      "\<not> overlaps_paddle game_canvas game_store wall_ball"
    by (simp_all add: overlaps_paddle_def within_expanded_def game_constants fop_defs
        wall_ball_def game_defs fl_eval)
  from wall_contact_sets_flag [of Textured "(1, - 1)" wall_ball game_canvas game_canvas game_store
      game_random "1 / 64" game_canvas game_store game_random] h
  have "fst (detectCollision game_canvas game_canvas game_store wall_ball game_random) = Some (1, - 1)"
    "isInsideCollidable wall_ball_1"
    "fst (detectCollision game_canvas game_canvas game_store wall_ball_1 game_random) \<noteq> Some (- 1, 1)"
    unfolding wall_ball_1_def by simp_all
  with h wall_ball_1_overlap show ?thesis by simp
qed

text \<open>
  C3, as the claim states it, fails. A ball inside the left paddle's expanded rectangle
  whose flag is set, away from the walls, has its flag cleared by the frame although it
  overlaps a paddle before and after it; and a side-wall exit clears a set flag too.
\<close>

theorem flag_cleared_inside_paddle:
  "isInsideCollidable flagged_ball \<and>
   overlaps_paddle game_canvas game_store flagged_ball \<and>
   overlaps_paddle game_canvas game_store
     (fst (Ball_moveUpdate Textured game_canvas game_canvas game_store (1 / 64) flagged_ball game_random)) \<and>
   \<not> isInsideCollidable
     (fst (Ball_moveUpdate Textured game_canvas game_canvas game_store (1 / 64) flagged_ball game_random)) \<and>
   isInsideCollidable flagged_exit_ball \<and>
   collision_case game_canvas game_canvas game_store flagged_exit_ball = SideExit \<and>
   \<not> isInsideCollidable
     (fst (Ball_moveUpdate Textured game_canvas game_canvas game_store (1 / 64) flagged_exit_ball game_random))"
proof -
  have e: "collision_case game_canvas game_canvas game_store flagged_exit_ball = SideExit"
    by (simp add: collision_case_eval flagged_exit_ball_def game_defs fl_eval)
  have f: "isInsideCollidable flagged_ball" "isInsideCollidable flagged_exit_ball"
    by (simp_all add: flagged_ball_def flagged_exit_ball_def game_ball_def)
  have o: "overlaps_paddle game_canvas game_store
     (fst (Ball_moveUpdate Textured game_canvas game_canvas game_store (1 / 64) flagged_ball game_random))"
    unfolding Ball_moveUpdate_NoCollision [OF flagged_ball_case]
    by (simp add: overlaps_paddle_def within_expanded_def game_constants fop_defs
        flagged_ball_def game_defs fl_eval)
  show ?thesis
    using f o flagged_ball_overlap e
    by (simp add: Ball_moveUpdate_flag flagged_ball_case)
qed

text \<open>
  C3, amended. After a frame the flag is set exactly when that frame's collision test
  returned a modifier: a paddle's expanded rectangle held the ball while the flag was
  clear, or the ball was at or beyond the top or bottom edge. In every other case the
  frame clears it: when nothing matches, on a side-wall exit, and when the ball overlaps
  a paddle with the flag already set. In particular, when a paddle overlap is detected on
  one frame and the ball is at the top or bottom wall on the next, the flag is set
  after both frames.
\<close>

theorem flag_after_frame:
  assumes "b1 = fst (Ball_moveUpdate ver cv0 cv st deltaTime b g)"
      and "b2 = fst (Ball_moveUpdate ver cv0 cv' st' deltaTime' b1 g')"
  shows
    "(isInsideCollidable b1 \<longleftrightarrow>
        (overlaps_paddle cv0 st b \<and> \<not> isInsideCollidable b) \<or>
        snd (translation b) \<le> 0 \<or> clientHeight cv \<le> snd (translation b)) \<and>
     (overlaps_paddle cv0 st b \<and> \<not> isInsideCollidable b \<and>
      (snd (translation b1) \<le> 0 \<or> clientHeight cv' \<le> snd (translation b1)) \<longrightarrow>
        isInsideCollidable b1 \<and> isInsideCollidable b2)"
proof -
  have flag: "isInsideCollidable (fst (Ball_moveUpdate ver cv0 c s d x r)) \<longleftrightarrow>
        (overlaps_paddle cv0 s x \<and> \<not> isInsideCollidable x) \<or>
        snd (translation x) \<le> 0 \<or> clientHeight c \<le> snd (translation x)" for c s d x r
    unfolding Ball_moveUpdate_flag by (simp add: collision_case_def)
  show ?thesis
    unfolding assms flag by blast
qed

theorem flag_after_frame_witness:
  "overlaps_paddle game_canvas game_store corner_ball \<and> \<not> isInsideCollidable corner_ball \<and>
   snd (translation corner_ball_1) \<le> 0 \<and>
   isInsideCollidable corner_ball_1 \<and> isInsideCollidable corner_ball_2"
proof -
  have h: "overlaps_paddle game_canvas game_store corner_ball" "\<not> isInsideCollidable corner_ball"
    by (simp_all add: overlaps_paddle_def within_expanded_def game_constants fop_defs
        corner_ball_def game_defs fl_eval)
  have w: "snd (translation corner_ball_1) \<le> 0"
    by (simp add: corner_ball_1_value)
  from flag_after_frame [OF corner_ball_1_def corner_ball_2_def] h w
  have "isInsideCollidable corner_ball_1 \<and> isInsideCollidable corner_ball_2"
    by blast
  with h w show ?thesis by simp
qed

text \<open>
  C1, as the claim states it, fails on its second frame. A ball on the top edge of the
  left paddle's expanded rectangle with the flag clear and X velocity \<open>- 1\<close> leaves the
  first frame with X velocity \<^verbatim>\<open>1.1\<close> and the flag set; it is still inside the rectangle,
  and the second frame leaves the velocity as it is and clears the flag.
\<close>

theorem second_frame_no_flip:
  "\<not> isInsideCollidable edge_ball \<and>
   snd (translation edge_ball) =
     fadd (fadd (snd (translation (game_store 0))) (plankHeight game_canvas)) (fdiv (POINT_SIZE game_canvas) 2) \<and>
   overlaps_paddle game_canvas game_store edge_ball \<and>
   fst (moveVector edge_ball) = - 1 \<and>
   fst (moveVector edge_ball_1) = ACCELERATION Textured \<and>
   isInsideCollidable edge_ball_1 \<and>
   overlaps_paddle game_canvas game_store edge_ball_1 \<and>
   moveVector edge_ball_2 = moveVector edge_ball_1 \<and>
   sgn (fst (moveVector edge_ball_2)) \<noteq> - sgn (fst (moveVector edge_ball_1)) \<and>
   \<not> isInsideCollidable edge_ball_2"
proof -
  have 0: "\<not> isInsideCollidable edge_ball" "fst (moveVector edge_ball) = - 1"
      "overlaps_paddle game_canvas game_store edge_ball"
      "snd (translation edge_ball) =
        fadd (fadd (snd (translation (game_store 0))) (plankHeight game_canvas)) (fdiv (POINT_SIZE game_canvas) 2)"
    by (simp_all add: overlaps_paddle_def within_expanded_def game_constants fop_defs
        edge_ball_def game_defs fl_eval)
  have 1: "fst (moveVector edge_ball_1) = ACCELERATION Textured" "isInsideCollidable edge_ball_1"
    by (simp_all add: edge_ball_1_value ACCELERATION_value)
  have 2: "moveVector edge_ball_2 = moveVector edge_ball_1" "\<not> isInsideCollidable edge_ball_2"
      "sgn (fst (moveVector edge_ball_2)) \<noteq> - sgn (fst (moveVector edge_ball_1))"
    by (simp_all add: edge_ball_1_value edge_ball_2_value)
  from 0 1 2 edge_ball_1_overlap show ?thesis by simp
qed

text \<open>
  C1, amended. For a ball inside a paddle's expanded rectangle (its boundary included)
  with the flag clear, one frame reverses the sign of the X velocity, multiplies both
  components by \<^verbatim>\<open>ACCELERATION\<close> and sets the flag. On the immediately following frame,
  with the ball still inside the paddle's expanded rectangle and touching no wall, the
  overlap is not detected: the velocity is unchanged and the flag is cleared. Only on
  the frame after that, if the ball is still inside, is the X sign reversed and the
  velocity scaled again.
\<close>

theorem paddle_bounce_every_other_frame:
  assumes "\<not> isInsideCollidable b" and "overlaps_paddle cv0 st b"
      and "is_double (fst (moveVector b))" and "is_double (snd (moveVector b))"
      and "b1 = fst (Ball_moveUpdate ver cv0 cv st deltaTime b g)"
      and "overlaps_paddle cv0 st' b1"
      and "0 < snd (translation b1)" and "snd (translation b1) < clientHeight cv'"
      and "0 < fst (translation b1)" and "fst (translation b1) < clientWidth cv'"
      and "b2 = fst (Ball_moveUpdate ver cv0 cv' st' deltaTime' b1 g')"
      and "b3 = fst (Ball_moveUpdate ver cv0 cv'' st'' deltaTime'' b2 g'')"
  shows
    "isInsideCollidable b1 \<and>
     moveVector b1 = (- fmul (fst (moveVector b)) (ACCELERATION ver),
                      fmul (snd (moveVector b)) (ACCELERATION ver)) \<and>
     sgn (fst (moveVector b1)) = - sgn (fst (moveVector b)) \<and>
     moveVector b2 = moveVector b1 \<and>
     \<not> isInsideCollidable b2 \<and>
     (overlaps_paddle cv0 st'' b2 \<longrightarrow>
        isInsideCollidable b3 \<and>
        moveVector b3 = (- fmul (fst (moveVector b2)) (ACCELERATION ver),
                         fmul (snd (moveVector b2)) (ACCELERATION ver)) \<and>
        sgn (fst (moveVector b3)) = sgn (fst (moveVector b)))"
proof -
  have a1: "1 \<le> ACCELERATION ver" by (rule ACCELERATION_ge_1)
  have hit: "collision_case cv0 cv st b = PaddleHit"
    using assms(1,2) by (simp add: collision_case_def)
  have f1: "isInsideCollidable b1"
    unfolding assms(5) using hit by (simp add: Ball_moveUpdate_flag)
  have m1: "moveVector b1 = (- fmul (fst (moveVector b)) (ACCELERATION ver),
      fmul (snd (moveVector b)) (ACCELERATION ver))"
    unfolding assms(5)
    by (simp add: Ball_moveUpdate_moveVector(1) [OF hit] fmul_modifier [OF assms(3)]
        fmul_modifier [OF assms(4)])
  have s1: "sgn (fst (moveVector b1)) = - sgn (fst (moveVector b))"
    by (simp add: m1 sgn_minus sgn_fmul [OF assms(3) a1])
  have none: "collision_case cv0 cv' st' b1 = NoCollision"
    using f1 assms(7-10) by (simp add: collision_case_def)
  have m2: "moveVector b2 = moveVector b1"
    unfolding assms(11) by (rule Ball_moveUpdate_moveVector(3) [OF none])
  have f2: "\<not> isInsideCollidable b2"
    unfolding assms(11) using none by (simp add: Ball_moveUpdate_flag)
  have d2: "is_double (fst (moveVector b2))" "is_double (snd (moveVector b2))"
    by (simp_all add: m2 m1 fmul_def)
  {
    assume "overlaps_paddle cv0 st'' b2"
    with f2 have hit3: "collision_case cv0 cv'' st'' b2 = PaddleHit"
      by (simp add: collision_case_def)
    have f3: "isInsideCollidable b3"
      unfolding assms(12) using hit3 by (simp add: Ball_moveUpdate_flag)
    have m3: "moveVector b3 = (- fmul (fst (moveVector b2)) (ACCELERATION ver),
        fmul (snd (moveVector b2)) (ACCELERATION ver))"
      unfolding assms(12)
      by (simp add: Ball_moveUpdate_moveVector(1) [OF hit3] fmul_modifier [OF d2(1)]
          fmul_modifier [OF d2(2)])
    have "sgn (fst (moveVector b3)) = - sgn (fst (moveVector b2))"
      by (simp add: m3 sgn_minus sgn_fmul [OF d2(1) a1])
    then have "sgn (fst (moveVector b3)) = sgn (fst (moveVector b))"
      by (simp add: m2 s1)
    note f3 m3 this
  }
  with f1 m1 s1 m2 f2 show ?thesis by blast
qed

theorem paddle_bounce_every_other_frame_witness:
  "\<not> isInsideCollidable edge_ball \<and> overlaps_paddle game_canvas game_store edge_ball \<and>
   is_double (fst (moveVector edge_ball)) \<and> is_double (snd (moveVector edge_ball)) \<and>
   overlaps_paddle game_canvas game_store edge_ball_1 \<and>
   0 < snd (translation edge_ball_1) \<and> snd (translation edge_ball_1) < clientHeight game_canvas \<and>
   0 < fst (translation edge_ball_1) \<and> fst (translation edge_ball_1) < clientWidth game_canvas \<and>
   overlaps_paddle game_canvas game_store edge_ball_2 \<and>
   isInsideCollidable edge_ball_1 \<and>
   sgn (fst (moveVector edge_ball)) = - 1 \<and>
   sgn (fst (moveVector edge_ball_1)) = 1 \<and>
   moveVector edge_ball_2 = moveVector edge_ball_1 \<and>
   \<not> isInsideCollidable edge_ball_2 \<and>
   isInsideCollidable edge_ball_3 \<and>
   sgn (fst (moveVector edge_ball_3)) = - 1"
proof -
  have 0: "\<not> isInsideCollidable edge_ball" "overlaps_paddle game_canvas game_store edge_ball"
      "is_double (fst (moveVector edge_ball))" "is_double (snd (moveVector edge_ball))"
      "sgn (fst (moveVector edge_ball)) = - 1"
    by (simp_all add: overlaps_paddle_def within_expanded_def game_constants fop_defs
        edge_ball_def game_defs is_double_def fl_eval)
  have 1: "0 < snd (translation edge_ball_1)" "snd (translation edge_ball_1) < clientHeight game_canvas"
      "0 < fst (translation edge_ball_1)" "fst (translation edge_ball_1) < clientWidth game_canvas"
    by (simp_all add: edge_ball_1_value game_canvas_size)
  have 2: "overlaps_paddle game_canvas game_store edge_ball_2"
    by (simp add: overlaps_paddle_def within_expanded_def game_constants fop_defs
        edge_ball_2_value game_defs fl_eval)
  from paddle_bounce_every_other_frame [OF 0(1-4) edge_ball_1_def edge_ball_1_overlap 1
      edge_ball_2_def edge_ball_3_def] 2
  have "isInsideCollidable edge_ball_1 \<and>
      sgn (fst (moveVector edge_ball_1)) = - sgn (fst (moveVector edge_ball)) \<and>
      moveVector edge_ball_2 = moveVector edge_ball_1 \<and>
      \<not> isInsideCollidable edge_ball_2 \<and>
      isInsideCollidable edge_ball_3 \<and>
      sgn (fst (moveVector edge_ball_3)) = sgn (fst (moveVector edge_ball))"
    by blast
  with 0 1 2 edge_ball_1_overlap show ?thesis by simp
qed

section \<open>Leaving the field by a side wall\<close>

text \<open>
  C2, as the claim states it, fails. The ball of the specification's scenario, at
  \<open>(0, h/2)\<close> with velocity \<open>(- 1, 0)\<close>, is put at the centre \<open>(500, 400)\<close> by the collision
  test, and then the same update moves it by one step of its new velocity: after a frame
  of \<open>1/64\<close> s (draws of \<open>3/4\<close>: velocity \<open>(1, 1/4)\<close>) it is at \<open>(505.203125, 401.30078125)\<close>.
  And a ball on the left edge in front of the left paddle is not reset at all: the paddle
  test comes first, and it bounces.
\<close>

theorem side_exit_not_at_center:
  "translation exit_ball = (0, fdiv (clientHeight game_canvas) 2) \<and>
   moveVector exit_ball = (- 1, 0) \<and>
   translation (fst (Ball_moveUpdate Textured game_canvas game_canvas game_store (1 / 64) exit_ball game_random))
     = (32333 / 64, 102733 / 256) \<and>
   translation (fst (Ball_moveUpdate Textured game_canvas game_canvas game_store (1 / 64) exit_ball game_random))
     \<noteq> (fdiv (clientWidth game_canvas) 2, fdiv (clientHeight game_canvas) 2) \<and>
   fst (translation saved_ball) \<le> 0 \<and>
   collision_case game_canvas game_canvas game_store saved_ball = PaddleHit \<and>
   translation (fst (Ball_moveUpdate Textured game_canvas game_canvas game_store (1 / 64) saved_ball game_random))
     \<noteq> (fdiv (clientWidth game_canvas) 2, fdiv (clientHeight game_canvas) 2) \<and>
   color (fst (Ball_moveUpdate Textured game_canvas game_canvas game_store (1 / 64) saved_ball game_random))
     = color saved_ball \<and>
   snd (Ball_moveUpdate Textured game_canvas game_canvas game_store (1 / 64) saved_ball game_random)
     = game_random"
proof -
  have h: "fdiv (clientWidth game_canvas) 2 = 500" "fdiv (clientHeight game_canvas) 2 = 400"
    by (simp_all add: game_canvas_size fdiv_def fl_eval)
  have e: "translation exit_ball = (0, fdiv (clientHeight game_canvas) 2)" "moveVector exit_ball = (- 1, 0)"
    by (simp_all add: h exit_ball_def game_ball_def)
  have s: "collision_case game_canvas game_canvas game_store saved_ball = PaddleHit"
    by (simp add: collision_case_eval saved_ball_def game_defs fl_eval)
  have s0: "fst (translation saved_ball) \<le> 0"
    by (simp add: saved_ball_def game_ball_def)
  have s1: "translation (fst (Ball_moveUpdate Textured game_canvas game_canvas game_store (1 / 64) saved_ball game_random))
     \<noteq> (fdiv (clientWidth game_canvas) 2, fdiv (clientHeight game_canvas) 2)"
    unfolding Ball_moveUpdate_PaddleHit [OF s] h
    by (simp add: saved_ball_def game_ball_def game_constants ACCELERATION_value fop_defs fl_eval)
  have s2: "color (fst (Ball_moveUpdate Textured game_canvas game_canvas game_store (1 / 64) saved_ball game_random))
     = color saved_ball"
    "snd (Ball_moveUpdate Textured game_canvas game_canvas game_store (1 / 64) saved_ball game_random)
     = game_random"
    unfolding Ball_moveUpdate_PaddleHit [OF s] by simp_all
  show ?thesis
    using e s s0 s1 s2 by (simp add: exit_ball_frame h)
qed

text \<open>
  C2, amended. When a ball is at or beyond the left or right edge at the start of a
  frame's update, strictly between the top and bottom edges, and the paddle test does
  not fire (its flag is set or no paddle's expanded rectangle holds it), the collision
  test puts it at the field centre \<open>(w/2, h/2)\<close> and gives it a freshly sampled velocity and
  colour, using the next five random draws; the flag is cleared. The same update then
  integrates one step: the position after it is the centre plus
  \<^verbatim>\<open>PIXELS_PER_SEC * velocity * deltaTime\<close> with the new velocity, which is the centre itself
  when \<open>deltaTime = 0\<close>.
\<close>

theorem side_exit_reset:
  assumes "fst (translation b) \<le> 0 \<or> clientWidth cv \<le> fst (translation b)"
      and "0 < snd (translation b)" and "snd (translation b) < clientHeight cv"
      and "isInsideCollidable b \<or> \<not> overlaps_paddle cv0 st b"
      and "b' = fst (Ball_moveUpdate ver cv0 cv st deltaTime b g)"
      and "v = (if 1 / 2 < draws g (drawn g) then 1 else - 1,
                fmul (fsub (fmul (draws g (drawn g + 1)) 2) 1) (1 / 2))"
      and "c = (draws g (drawn g + 2), draws g (drawn g + 3), draws g (drawn g + 4), 1)"
  shows
    "detectCollision cv0 cv st b g =
       (None,
        b\<lparr>translation := (fdiv (clientWidth cv) 2, fdiv (clientHeight cv) 2), moveVector := v, color := c\<rparr>,
        g\<lparr>drawn := drawn g + 5\<rparr>) \<and>
     moveVector b' = v \<and> color b' = c \<and> \<not> isInsideCollidable b' \<and>
     snd (Ball_moveUpdate ver cv0 cv st deltaTime b g) = g\<lparr>drawn := drawn g + 5\<rparr> \<and>
     translation b' =
       (fadd (fdiv (clientWidth cv) 2) (fmul (fmul (PIXELS_PER_SEC cv0) (fst v)) deltaTime),
        fadd (fdiv (clientHeight cv) 2) (fmul (fmul (PIXELS_PER_SEC cv0) (snd v)) deltaTime)) \<and>
     (deltaTime = 0 \<longrightarrow> translation b' = (fdiv (clientWidth cv) 2, fdiv (clientHeight cv) 2))"
proof -
  have exit: "collision_case cv0 cv st b = SideExit"
    using assms(1-4) by (auto simp: collision_case_def)
  have r: "fst (randomMoveVector g) = v"
      "fst (randomColor (snd (randomMoveVector g))) = c"
      "snd (randomColor (snd (randomMoveVector g))) = g\<lparr>drawn := drawn g + 5\<rparr>"
    by (simp_all add: randomMoveVector_def randomColor_def Math_random_def assms(6,7) fl_half
        numeral_eq_Suc)
  have d: "detectCollision cv0 cv st b g =
       (None,
        b\<lparr>translation := (fdiv (clientWidth cv) 2, fdiv (clientHeight cv) 2), moveVector := v, color := c\<rparr>,
        g\<lparr>drawn := drawn g + 5\<rparr>)"
    using exit by (simp add: detectCollision_by_case r)
  have u: "Ball_moveUpdate ver cv0 cv st deltaTime b g =
      (b\<lparr>isInsideCollidable := False, moveVector := v, color := c,
         translation :=
           (fadd (fdiv (clientWidth cv) 2) (fmul (fmul (PIXELS_PER_SEC cv0) (fst v)) deltaTime),
            fadd (fdiv (clientHeight cv) 2) (fmul (fmul (PIXELS_PER_SEC cv0) (snd v)) deltaTime))\<rparr>,
       g\<lparr>drawn := drawn g + 5\<rparr>)"
    unfolding Ball_moveUpdate_SideExit [OF exit] r ..
  have z: "fadd (fdiv a 2) (fmul x 0) = fdiv a 2" for a x
    by (simp add: fop_defs)
  show ?thesis
    unfolding assms(5) u using d by (simp add: z)
qed

theorem side_exit_reset_witness:
  "fst (translation exit_ball) \<le> 0 \<and>
   0 < snd (translation exit_ball) \<and> snd (translation exit_ball) < clientHeight game_canvas \<and>
   \<not> overlaps_paddle game_canvas game_store exit_ball \<and>
   moveVector (fst (Ball_moveUpdate Textured game_canvas game_canvas game_store (1 / 64) exit_ball game_random))
     = (1, 1 / 4) \<and>
   color (fst (Ball_moveUpdate Textured game_canvas game_canvas game_store (1 / 64) exit_ball game_random))
     = (3 / 4, 3 / 4, 3 / 4, 1) \<and>
   translation (fst (Ball_moveUpdate Textured game_canvas game_canvas game_store (1 / 64) exit_ball game_random))
     = (500 + 333 / 64, 400 + 333 / 256) \<and>
   translation (fst (Ball_moveUpdate Textured game_canvas game_canvas game_store 0 exit_ball game_random))
     = (500, 400)"
proof -
  have h: "fst (translation exit_ball) \<le> 0 \<or> clientWidth game_canvas \<le> fst (translation exit_ball)"
      "0 < snd (translation exit_ball)" "snd (translation exit_ball) < clientHeight game_canvas"
    by (simp_all add: exit_ball_def game_ball_def game_canvas_size)
  have o: "\<not> overlaps_paddle game_canvas game_store exit_ball"
    by (simp add: overlaps_paddle_def within_expanded_def game_constants fop_defs
        exit_ball_def game_defs fl_eval)
  then have o': "isInsideCollidable exit_ball \<or> \<not> overlaps_paddle game_canvas game_store exit_ball"
    by simp
  have v: "(1, 1 / 4) = (if 1 / 2 < draws game_random (drawn game_random) then 1 else - 1,
      fmul (fsub (fmul (draws game_random (drawn game_random + 1)) 2) 1) (1 / 2))"
    by (simp add: game_random_def fop_defs fl_eval)
  have c: "(3 / 4, 3 / 4, 3 / 4, 1) = (draws game_random (drawn game_random + 2),
      draws game_random (drawn game_random + 3), draws game_random (drawn game_random + 4), 1)"
    by (simp add: game_random_def)
  have a: "fdiv (clientWidth game_canvas) 2 = 500" "fdiv (clientHeight game_canvas) 2 = 400"
      "fadd 500 (fmul (fmul (PIXELS_PER_SEC game_canvas) 1) (1 / 64)) = 500 + 333 / 64"
      "fadd 400 (fmul (fmul (PIXELS_PER_SEC game_canvas) (1 / 4)) (1 / 64)) = 400 + 333 / 256"
    by (simp_all add: game_canvas_size game_constants fop_defs fl_eval)
  from side_exit_reset [OF h o' refl v c, where ver = Textured and deltaTime = "1 / 64"]
  have "moveVector (fst (Ball_moveUpdate Textured game_canvas game_canvas game_store (1 / 64) exit_ball game_random))
      = (1, 1 / 4) \<and>
    color (fst (Ball_moveUpdate Textured game_canvas game_canvas game_store (1 / 64) exit_ball game_random))
      = (3 / 4, 3 / 4, 3 / 4, 1) \<and>
    translation (fst (Ball_moveUpdate Textured game_canvas game_canvas game_store (1 / 64) exit_ball game_random))
      = (fadd (fdiv (clientWidth game_canvas) 2) (fmul (fmul (PIXELS_PER_SEC game_canvas) (fst (1 :: real, 1 / 4 :: real))) (1 / 64)),
         fadd (fdiv (clientHeight game_canvas) 2) (fmul (fmul (PIXELS_PER_SEC game_canvas) (snd (1 :: real, 1 / 4 :: real))) (1 / 64)))"
    by blast
  with a
  have 1: "moveVector (fst (Ball_moveUpdate Textured game_canvas game_canvas game_store (1 / 64) exit_ball game_random))
      = (1, 1 / 4)"
    "color (fst (Ball_moveUpdate Textured game_canvas game_canvas game_store (1 / 64) exit_ball game_random))
      = (3 / 4, 3 / 4, 3 / 4, 1)"
    "translation (fst (Ball_moveUpdate Textured game_canvas game_canvas game_store (1 / 64) exit_ball game_random))
      = (500 + 333 / 64, 400 + 333 / 256)"
    by simp_all
  from side_exit_reset [OF h o' refl v c, where ver = Textured and deltaTime = 0]
  have "translation (fst (Ball_moveUpdate Textured game_canvas game_canvas game_store 0 exit_ball game_random))
      = (fdiv (clientWidth game_canvas) 2, fdiv (clientHeight game_canvas) 2)"
    by blast
  then have 2: "translation (fst (Ball_moveUpdate Textured game_canvas game_canvas game_store 0 exit_ball game_random))
      = (500, 400)"
    by (simp add: a)
  from h(2,3) o 1 2 show ?thesis by (simp add: exit_ball_def game_ball_def)
qed

section \<open>Random velocity and colour\<close>

lemma is_double_small: "is_double 1" "is_double 2" "is_double (1 / 2)"
  by (simp_all add: is_double_def fl_eval)

lemma random_Y_range:
  assumes "0 \<le> r" and "r < 1"
  shows "- (1 / 2) \<le> fmul (fsub (fmul r 2) 1) (1 / 2)" and "fmul (fsub (fmul r 2) 1) (1 / 2) \<le> 1 / 2"
proof -
  define a where "a = fmul r 2"
  define b where "b = fsub a 1"
  have a: "0 \<le> a" "a \<le> 2"
    unfolding a_def fmul_def using assms
    by (auto intro!: fl_ge_double fl_le_double is_double_small)
  have "- 1 \<le> fl (a - 1)"
    using a by (intro fl_ge_double) (simp_all add: is_double_small)
  moreover have "fl (a - 1) \<le> 1"
    using a by (intro fl_le_double) (simp_all add: is_double_small)
  ultimately have b: "- 1 \<le> b" "b \<le> 1" by (simp_all add: b_def fsub_def)
  have "- (1 / 2) \<le> fl (b * (1 / 2))"
    using b by (intro fl_ge_double) (simp_all add: is_double_small)
  moreover have "fl (b * (1 / 2)) \<le> 1 / 2"
    using b by (intro fl_le_double) (simp_all add: is_double_small)
  ultimately show "- (1 / 2) \<le> fmul (fsub (fmul r 2) 1) (1 / 2)"
    and "fmul (fsub (fmul r 2) 1) (1 / 2) \<le> 1 / 2"
    by (simp_all add: a_def b_def fmul_def)
qed

lemma randomMoveVector_value:
  "randomMoveVector g =
     ((if 1 / 2 < draws g (drawn g) then 1 else - 1,
       fmul (fsub (fmul (draws g (Suc (drawn g))) 2) 1) (1 / 2)),
      g\<lparr>drawn := Suc (Suc (drawn g))\<rparr>)"
  by (simp add: randomMoveVector_def Math_random_def fl_half)

lemma randomColor_value:
  "randomColor g =
     ((draws g (drawn g), draws g (Suc (drawn g)), draws g (Suc (Suc (drawn g))), 1),
      g\<lparr>drawn := Suc (Suc (Suc (drawn g)))\<rparr>)"
  by (simp add: randomColor_def Math_random_def)

text \<open>
  C7. With every draw of the random source in \<open>[0, 1)\<close>: the X component of a sampled
  velocity is \<open>1\<close> when the first draw is above \<open>1/2\<close> and \<open>- 1\<close> otherwise, so it is
  \<open>+1\<close> on the draws of \<open>(1/2, 1)\<close> and \<open>- 1\<close> on those of \<open>[0, 1/2]\<close>, two intervals of the
  same length, exchanged (but for the point \<open>1/2\<close>) by the reflection \<open>r \<mapsto> 1 - r\<close>, which
  reverses the sign: the two values are equally likely for a uniform draw. The Y
  component, computed from the second draw, lies in \<open>[- 1/2, 1/2]\<close>. The R, G and B
  components of a sampled colour are the next three draws, each in \<open>[0, 1]\<close>, and its
  alpha component is \<open>1\<close>.
\<close>

theorem random_sampling_ranges:
  assumes "\<forall>n. 0 \<le> draws g n \<and> draws g n < 1"
      and "v = fst (randomMoveVector g)"
      and "c = fst (randomColor g)"
  shows
    "(fst v = 1 \<or> fst v = - 1) \<and>
     (fst v = 1 \<longleftrightarrow> draws g (drawn g) \<in> {1 / 2 <..< 1}) \<and>
     (fst v = - 1 \<longleftrightarrow> draws g (drawn g) \<in> {0 .. 1 / 2}) \<and>
     (\<forall>g'. draws g' (drawn g') = 1 - draws g (drawn g) \<and> draws g (drawn g) \<noteq> 1 / 2 \<longrightarrow>
        fst (fst (randomMoveVector g')) = - fst v) \<and>
     - (1 / 2) \<le> snd v \<and> snd v \<le> 1 / 2 \<and>
     c = (draws g (drawn g), draws g (drawn g + 1), draws g (drawn g + 2), 1) \<and>
     0 \<le> fst c \<and> fst c \<le> 1 \<and>
     0 \<le> fst (snd c) \<and> fst (snd c) \<le> 1 \<and>
     0 \<le> fst (snd (snd c)) \<and> fst (snd (snd c)) \<le> 1 \<and>
     snd (snd (snd c)) = 1 \<and>
     drawn (snd (randomMoveVector g)) = drawn g + 2 \<and>
     drawn (snd (randomColor g)) = drawn g + 3"
proof -
  have r: "0 \<le> draws g n" "draws g n < 1" "draws g n \<le> 1" for n
    using assms(1) by (simp_all add: less_imp_le)
  have x: "fst v = (if 1 / 2 < draws g (drawn g) then 1 else - 1)"
    by (simp add: assms(2) randomMoveVector_value)
  have y: "snd v = fmul (fsub (fmul (draws g (Suc (drawn g))) 2) 1) (1 / 2)"
    by (simp add: assms(2) randomMoveVector_value)
  have c: "c = (draws g (drawn g), draws g (drawn g + 1), draws g (drawn g + 2), 1)"
    by (simp add: assms(3) randomColor_value numeral_eq_Suc)
  have 1: "fst v = 1 \<or> fst v = - 1" by (simp add: x)
  have 2: "fst v = 1 \<longleftrightarrow> draws g (drawn g) \<in> {1 / 2 <..< 1}"
    using r(2) [of "drawn g"] by (simp add: x)
  have 3: "fst v = - 1 \<longleftrightarrow> draws g (drawn g) \<in> {0 .. 1 / 2}"
    using r(1) [of "drawn g"] by (auto simp: x)
  have 4: "\<forall>g'. draws g' (drawn g') = 1 - draws g (drawn g) \<and> draws g (drawn g) \<noteq> 1 / 2 \<longrightarrow>
        fst (fst (randomMoveVector g')) = - fst v"
    by (auto simp: x randomMoveVector_value)
  have 5: "- (1 / 2) \<le> snd v" "snd v \<le> 1 / 2"
    unfolding y by (rule random_Y_range [OF r(1) r(2)])+
  have 6: "0 \<le> fst c" "fst c \<le> 1" "0 \<le> fst (snd c)" "fst (snd c) \<le> 1"
      "0 \<le> fst (snd (snd c))" "fst (snd (snd c)) \<le> 1" "snd (snd (snd c)) = 1"
    by (simp_all add: c r)
  have 7: "drawn (snd (randomMoveVector g)) = drawn g + 2" "drawn (snd (randomColor g)) = drawn g + 3"
    by (simp_all add: randomMoveVector_value randomColor_value)
  from 1 2 3 4 5 c 6 7 show ?thesis by blast
qed

theorem random_sampling_ranges_witness:
  "(\<forall>n. 0 \<le> draws game_random n \<and> draws game_random n < 1) \<and>
   (\<forall>n. 0 \<le> draws low_random n \<and> draws low_random n < 1) \<and>
   fst (randomMoveVector game_random) = (1, 1 / 4) \<and>
   fst (randomColor game_random) = (3 / 4, 3 / 4, 3 / 4, 1) \<and>
   fst (randomMoveVector low_random) = (- 1, - (1 / 4)) \<and>
   fst (fst (randomMoveVector low_random)) = - fst (fst (randomMoveVector game_random)) \<and>
   - (1 / 2) \<le> snd (fst (randomMoveVector low_random)) \<and>
   snd (fst (randomMoveVector game_random)) \<le> 1 / 2"
proof -
  have h: "\<forall>n. 0 \<le> draws game_random n \<and> draws game_random n < 1"
      "\<forall>n. 0 \<le> draws low_random n \<and> draws low_random n < 1"
    by (simp_all add: game_random_def low_random_def)
  have e: "fst (randomMoveVector game_random) = (1, 1 / 4)"
      "fst (randomColor game_random) = (3 / 4, 3 / 4, 3 / 4, 1)"
      "fst (randomMoveVector low_random) = (- 1, - (1 / 4))"
    by (simp_all add: randomMoveVector_value randomColor_value game_random_def low_random_def
        fop_defs fl_eval)
  have m: "draws low_random (drawn low_random) = 1 - draws game_random (drawn game_random)"
      "draws game_random (drawn game_random) \<noteq> 1 / 2"
    by (simp_all add: game_random_def low_random_def)
  note t = random_sampling_ranges [OF h(1) refl refl] random_sampling_ranges [OF h(2) refl refl]
  from t(1) m
  have 1: "fst (fst (randomMoveVector low_random)) = - fst (fst (randomMoveVector game_random))"
    by blast
  from t(1) have 2: "snd (fst (randomMoveVector game_random)) \<le> 1 / 2" by blast
  from t(2) have 3: "- (1 / 2) \<le> snd (fst (randomMoveVector low_random))" by blast
  from h e 1 2 3 show ?thesis by simp
qed


end
